theory Spec2Isabelle
  imports Main "HOL-Library.Sublist"
begin

section \<open>SQLMaker: the schema designer of \<^verbatim>\<open>src/temp.js\<close>\<close>

text \<open>
  The component keeps two collections, \<^verbatim>\<open>tables\<close> and \<^verbatim>\<open>relationships\<close>, a dialect, a
  status message and two modal flags in React state. Every handler reads the current
  values and calls the setters; here a handler is a function from the state record to the
  next state record. Values that the handlers draw from the runtime
  (\<^verbatim>\<open>crypto.randomUUID()\<close>, \<^verbatim>\<open>Date.now()\<close>, \<^verbatim>\<open>Math.random()\<close>) are arguments of the model.
  The timer of \<^verbatim>\<open>resetMessage\<close>, which clears the message after 2.5 seconds, is not part
  of the model.
\<close>

subsection \<open>Strings\<close>

text \<open>
  A JavaScript string is a \<^typ>\<open>string\<close>, a sequence of characters. The program compares
  strings, tests them for emptiness and concatenates them, and the model does the same on
  the sequences; the characters that the program writes itself are ASCII. Two built-in
  methods look at the characters of a string:
  \<^verbatim>\<open>String.prototype.toLowerCase\<close> and \<^verbatim>\<open>String.prototype.trim\<close>. They follow the Unicode
  tables of the runtime and are no code of this program, so the model takes them as
  arguments, the record \<open>rt\<close>, and every property below holds for whatever the two
  functions are, unless it names a condition on them.
\<close>

record runtime =
  toLowerCase :: "string \<Rightarrow> string"
  trim :: "string \<Rightarrow> string"

text \<open>\<^verbatim>\<open>Array.prototype.join\<close> on an array of strings.\<close>

fun join :: "string \<Rightarrow> string list \<Rightarrow> string" where
  "join sep [] = []"
| "join sep [x] = x"
| "join sep (x # y # ys) = x @ sep @ join sep (y # ys)"

text \<open>
  The decimal text of a counter, as a template literal renders a number. The counter of
  \<^verbatim>\<open>uniqueName\<close> is a natural number here; the source's double is exact up to \<open>2^53\<close>.
\<close>

definition digitChar :: "nat \<Rightarrow> char" where
  "digitChar d = ''0123456789'' ! d"

fun String_nat :: "nat \<Rightarrow> string" where
  "String_nat n =
     (if n < 10 then [digitChar n] else String_nat (n div 10) @ [digitChar (n mod 10)])"

declare String_nat.simps [simp del]

subsection \<open>Data model\<close>

text \<open>
  Objects are records. A property that some of the source's object literals leave out
  (\<^verbatim>\<open>isPrimary\<close> on a foreign-key field, \<^verbatim>\<open>isForeignKey\<close> on a default field, ...) has an
  option type: \<open>None\<close> is the absent property, which reads as \<^verbatim>\<open>undefined\<close>. The source
  tests such properties for truthiness only.
\<close>

record field =
  f_id :: string
  f_name :: string
  f_type :: string
  isPrimary :: "bool option"
  isNull :: "bool option"
  isUnique :: "bool option"
  autoIncrement :: "bool option"
  f_default :: "string option"
  isForeignKey :: "bool option"
  references :: "string option"

record table =
  t_id :: string
  t_name :: string
  t_fields :: "field list"

record relationship =
  r_id :: string
  parentTableId :: string
  childTableId :: string
  parentField :: string
  childField :: string
  r_type :: string

text \<open>The drafts edited in the two modals: a table or a relationship without its id.\<close>

record table_draft =
  d_name :: string
  d_fields :: "field list"

record rel_draft =
  d_parentTableId :: string
  d_childTableId :: string
  d_parentField :: string
  d_childField :: string
  d_type :: string

record state =
  tables :: "table list"
  relationships :: "relationship list"
  dialect :: string
  message :: string
  showTableModal :: bool
  showRelModal :: bool

definition truthy :: "bool option \<Rightarrow> bool" where
  "truthy b = (b = Some True)"

definition truthyS :: "string option \<Rightarrow> bool" where
  "truthyS v = (case v of None \<Rightarrow> False | Some s \<Rightarrow> s \<noteq> [])"

text \<open>
  \<^verbatim>\<open>DEFAULT_FIELD()\<close>; its id is \<^verbatim>\<open>String(Date.now()) + Math.random().toString(36).slice(2)\<close>,
  passed in.
\<close>

definition DEFAULT_FIELD :: "string \<Rightarrow> field" where
  "DEFAULT_FIELD fresh =
     \<lparr>f_id = fresh, f_name = ''id'', f_type = ''INTEGER'', isPrimary = Some True,
      isNull = Some False, isUnique = Some False, autoIncrement = Some True,
      f_default = Some [], isForeignKey = None, references = None\<rparr>"

subsection \<open>Name resolver\<close>

text \<open>
  \<^verbatim>\<open>
  function uniqueName(base, list) {
    let name = base;
    let i = 1;
    const existing = new Set(list.map(x => x.name.toLowerCase()));
    while (existing.has(name.toLowerCase())) {
      name = `${base}_${i++}`;
    }
    return name;
  }
  \<close>
  The loop is \<open>uniqueName_loop\<close>, with the set given by the list of its members. Whether
  the loop ends depends on what \<^verbatim>\<open>toLowerCase\<close> returns, so its result is an option: \<open>None\<close>
  is a loop that runs forever.
\<close>

definition suffixed :: "string \<Rightarrow> nat \<Rightarrow> string" where
  "suffixed base i = base @ ''_'' @ String_nat i"

partial_function (option) uniqueName_loop ::
  "runtime \<Rightarrow> string \<Rightarrow> string list \<Rightarrow> string \<Rightarrow> nat \<Rightarrow> string option" where
  "uniqueName_loop rt base existing name i =
     (if toLowerCase rt name \<in> set existing
      then uniqueName_loop rt base existing (suffixed base i) (i + 1)
      else Some name)"

definition uniqueName :: "runtime \<Rightarrow> string \<Rightarrow> table list \<Rightarrow> string option" where
  "uniqueName rt base list =
     uniqueName_loop rt base (map (\<lambda>x. toLowerCase rt (t_name x)) list) base 1"

subsection \<open>Schema store: tables\<close>

text \<open>
  \<^verbatim>\<open>saveTable\<close> reads the draft and \<^verbatim>\<open>editingTable\<close> (\<^verbatim>\<open>null\<close> when a table is being
  created); \<open>fresh\<close> is the value of \<^verbatim>\<open>crypto.randomUUID?.() || String(Date.now())\<close>.
  Each \<^verbatim>\<open>return resetMessage()\<close> of the source is a branch that only sets the message.
  \<^verbatim>\<open>new Set(names).size\<close> is the length of the list without its duplicates, and
  \<^verbatim>\<open>if (editingTable)\<close> fails for \<^verbatim>\<open>null\<close> and for the empty string.
\<close>

definition committed :: "string \<Rightarrow> table_draft \<Rightarrow> table" where
  "committed i tableDraft =
     \<lparr>t_id = i, t_name = d_name tableDraft, t_fields = d_fields tableDraft\<rparr>"

definition saveTable ::
  "runtime \<Rightarrow> string \<Rightarrow> string option \<Rightarrow> table_draft \<Rightarrow> state \<Rightarrow> state" where
  "saveTable rt fresh editingTable tableDraft s =
     (if trim rt (d_name tableDraft) = [] then s\<lparr>message := ''Table name required''\<rparr>
      else
        let nameLower = toLowerCase rt (trim rt (d_name tableDraft));
            nameConflict =
              list_ex
                (\<lambda>t. toLowerCase rt (trim rt (t_name t)) = nameLower \<and> Some (t_id t) \<noteq> editingTable)
                (tables s)
        in
        if nameConflict then s\<lparr>message := ''Table name already exists''\<rparr>
        else if d_fields tableDraft = [] then s\<lparr>message := ''At least one field required''\<rparr>
        else if \<not> list_ex (\<lambda>f. truthy (isPrimary f)) (d_fields tableDraft)
          then s\<lparr>message := ''Primary key required''\<rparr>
        else
          let names = map (\<lambda>f. toLowerCase rt (f_name f)) (d_fields tableDraft) in
          if length (remdups names) \<noteq> length names then s\<lparr>message := ''Duplicate field names''\<rparr>
          else
            let created =
                  s\<lparr>tables := tables s @ [committed fresh tableDraft],
                    message := ''Table created'', showTableModal := False\<rparr>
            in
            case editingTable of
              None \<Rightarrow> created
            | Some e \<Rightarrow>
                if e = [] then created
                else
                  s\<lparr>tables := map (\<lambda>t. if t_id t = e then committed e tableDraft else t) (tables s),
                    message := ''Table updated'', showTableModal := False\<rparr>)"

definition deleteTable :: "string \<Rightarrow> state \<Rightarrow> state" where
  "deleteTable tableId s =
     (case find (\<lambda>x. t_id x = tableId) (tables s) of
        None \<Rightarrow> s
      | Some t \<Rightarrow>
          s\<lparr>tables := filter (\<lambda>x. t_id x \<noteq> tableId) (tables s),
            relationships :=
              filter (\<lambda>r. parentTableId r \<noteq> tableId \<and> childTableId r \<noteq> tableId)
                (relationships s),
            message :=
              ''Deleted table '' @ [CHR 0x22] @ t_name t @ [CHR 0x22] @ '' and related relationships''\<rparr>)"

subsection \<open>Relationship engine\<close>

text \<open>
  The identifiers that \<^verbatim>\<open>saveRelationship\<close> draws from the runtime: two results of
  \<^verbatim>\<open>crypto.randomUUID?.() || String(Date.now())\<close> (join table, relationship), the id of
  \<^verbatim>\<open>DEFAULT_FIELD()\<close>, and three readings of \<^verbatim>\<open>String(Date.now())\<close>.
\<close>

record fresh_ids =
  id_table :: string
  id_rel :: string
  id_default :: string
  now_a :: string
  now_b :: string
  now_fk :: string

datatype js_error = TypeError

definition foreignKeyField :: "runtime \<Rightarrow> string \<Rightarrow> string \<Rightarrow> table \<Rightarrow> field" where
  "foreignKeyField rt i letter t =
     \<lparr>f_id = i @ letter, f_name = toLowerCase rt (t_name t) @ ''_id'', f_type = ''INTEGER'',
      isPrimary = None, isNull = None, isUnique = None, autoIncrement = None,
      f_default = None, isForeignKey = Some True, references = Some (t_id t)\<rparr>"

text \<open>The join table, given the name that \<^verbatim>\<open>uniqueName\<close> returned.\<close>

definition joinTable :: "runtime \<Rightarrow> fresh_ids \<Rightarrow> string \<Rightarrow> table \<Rightarrow> table \<Rightarrow> table" where
  "joinTable rt e joinName parent child =
     \<lparr>t_id = id_table e,
      t_name = joinName,
      t_fields =
        [DEFAULT_FIELD (id_default e),
         foreignKeyField rt (now_a e) ''a'' parent,
         foreignKeyField rt (now_b e) ''b'' child]\<rparr>"

text \<open>\<^verbatim>\<open>{ ...relDraft, id: ... }\<close>, with the two field names as given.\<close>

definition newRel :: "string \<Rightarrow> rel_draft \<Rightarrow> string \<Rightarrow> string \<Rightarrow> relationship" where
  "newRel i relDraft pf cf =
     \<lparr>r_id = i, parentTableId = d_parentTableId relDraft,
      childTableId = d_childTableId relDraft, parentField = pf, childField = cf,
      r_type = d_type relDraft\<rparr>"

text \<open>\<^verbatim>\<open>parent.fields.find(f => f.isPrimary) || parent.fields[0]\<close>; \<open>None\<close> is \<^verbatim>\<open>undefined\<close>.\<close>

definition parentPK :: "table \<Rightarrow> field option" where
  "parentPK parent =
     (case find (\<lambda>f. truthy (isPrimary f)) (t_fields parent) of
        Some f \<Rightarrow> Some f
      | None \<Rightarrow> (case t_fields parent of [] \<Rightarrow> None | f # _ \<Rightarrow> Some f))"

text \<open>\<^verbatim>\<open>relDraft.childField?.trim() || `${parent.name.toLowerCase()}_id`\<close>\<close>

definition fkName :: "runtime \<Rightarrow> rel_draft \<Rightarrow> table \<Rightarrow> string" where
  "fkName rt relDraft parent =
     (if trim rt (d_childField relDraft) \<noteq> [] then trim rt (d_childField relDraft)
      else toLowerCase rt (t_name parent) @ ''_id'')"

definition childHas :: "runtime \<Rightarrow> table \<Rightarrow> string \<Rightarrow> bool" where
  "childHas rt child n =
     list_ex (\<lambda>f. toLowerCase rt (f_name f) = toLowerCase rt n) (t_fields child)"

definition newForeignKey :: "string \<Rightarrow> string \<Rightarrow> field \<Rightarrow> table \<Rightarrow> string \<Rightarrow> field" where
  "newForeignKey i n pk parent ty =
     \<lparr>f_id = i, f_name = n,
      f_type = (if f_type pk \<noteq> [] then f_type pk else ''INTEGER''),
      isPrimary = None, isNull = Some False, isUnique = Some (ty = ''ONE_TO_ONE''),
      autoIncrement = None, f_default = None, isForeignKey = Some True,
      references = Some (t_id parent)\<rparr>"

text \<open>
  \<^verbatim>\<open>updatedChild\<close>. The source pushes the new field onto \<^verbatim>\<open>child.fields\<close> in place (the
  spread copy shares the array); the table that holds this array is the one replaced by
  \<^verbatim>\<open>updatedChild\<close> in \<^verbatim>\<open>tables.map\<close>, so the next state is the one written here.
\<close>

definition updatedChild ::
  "runtime \<Rightarrow> fresh_ids \<Rightarrow> rel_draft \<Rightarrow> table \<Rightarrow> field \<Rightarrow> table \<Rightarrow> table" where
  "updatedChild rt e relDraft parent pk child =
     (let n = fkName rt relDraft parent in
      if \<not> childHas rt child n then
        child\<lparr>t_fields := t_fields child @ [newForeignKey (now_fk e) n pk parent (d_type relDraft)]\<rparr>
      else if d_type relDraft = ''ONE_TO_ONE'' then
        child\<lparr>t_fields :=
          map (\<lambda>f. if toLowerCase rt (f_name f) = toLowerCase rt n
                   then f\<lparr>isUnique := Some True\<rparr> else f)
            (t_fields child)\<rparr>
      else child)"

text \<open>
  \<^verbatim>\<open>saveRelationship\<close>. The result is \<open>None\<close> when the handler does not return (the loop of
  \<^verbatim>\<open>uniqueName\<close>), \<open>Some (Inl TypeError)\<close> when it throws and \<open>Some (Inr s')\<close> when it returns
  with the next state \<open>s'\<close>. With no field on the parent, \<^verbatim>\<open>parentPK\<close> is \<^verbatim>\<open>undefined\<close> and
  reading \<^verbatim>\<open>parentPK.type\<close> (new field) or \<^verbatim>\<open>parentPK.name\<close> (relationship record) throws
  before any setter runs.
\<close>

definition saveRelationship ::
  "runtime \<Rightarrow> fresh_ids \<Rightarrow> rel_draft \<Rightarrow> state \<Rightarrow> (js_error + state) option" where
  "saveRelationship rt e relDraft s =
     (if d_parentTableId relDraft = [] \<or> d_childTableId relDraft = [] \<or>
         d_parentTableId relDraft = d_childTableId relDraft
      then Some (Inr (s\<lparr>message := ''Invalid parent/child tables''\<rparr>))
      else
        case (find (\<lambda>t. t_id t = d_parentTableId relDraft) (tables s),
              find (\<lambda>t. t_id t = d_childTableId relDraft) (tables s)) of
          (Some parent, Some child) \<Rightarrow>
            if d_type relDraft = ''MANY_TO_MANY'' then
              (case uniqueName rt (t_name parent @ ''_'' @ t_name child @ ''_join'') (tables s) of
                 None \<Rightarrow> None
               | Some joinName \<Rightarrow>
                   Some (Inr (s\<lparr>tables := tables s @ [joinTable rt e joinName parent child],
                     relationships := relationships s @
                       [newRel (id_rel e) relDraft (d_parentField relDraft) (d_childField relDraft)],
                     message := ''Created join table '' @ [CHR 0x22] @ joinName @ [CHR 0x22],
                     showRelModal := False\<rparr>)))
            else
              (case parentPK parent of
                 None \<Rightarrow> Some (Inl TypeError)
               | Some pk \<Rightarrow>
                   Some (Inr (s\<lparr>tables :=
                            map (\<lambda>t. if t_id t = t_id child
                                      then updatedChild rt e relDraft parent pk child else t)
                              (tables s),
                          relationships := relationships s @
                            [newRel (id_rel e) relDraft (f_name pk) (fkName rt relDraft parent)],
                          showRelModal := False,
                          message := ''Relationship saved''\<rparr>)))
        | _ \<Rightarrow> Some (Inr (s\<lparr>message := ''Parent or child table missing''\<rparr>)))"

text \<open>
  \<^verbatim>\<open>deleteRelationship\<close>. \<^verbatim>\<open>[rel.parentTableId, rel.childTableId].includes(f.references)\<close>
  is false for an absent \<^verbatim>\<open>references\<close>.
\<close>

definition referencesEndpoint :: "relationship \<Rightarrow> table \<Rightarrow> bool" where
  "referencesEndpoint rel t =
     list_ex (\<lambda>f. truthy (isForeignKey f) \<and>
                (references f = Some (parentTableId rel) \<or> references f = Some (childTableId rel)))
       (t_fields t)"

definition deleteRelationship :: "string \<Rightarrow> state \<Rightarrow> state" where
  "deleteRelationship relId s =
     (case find (\<lambda>r. r_id r = relId) (relationships s) of
        None \<Rightarrow> s
      | Some rel \<Rightarrow>
          if r_type rel = ''MANY_TO_MANY'' then
            s\<lparr>tables :=
                 (case find (referencesEndpoint rel) (tables s) of
                    None \<Rightarrow> tables s
                  | Some jt \<Rightarrow> filter (\<lambda>t. t_id t \<noteq> t_id jt) (tables s)),
              relationships := filter (\<lambda>r. r_id r \<noteq> relId) (relationships s),
              message := ''Deleted M:N relationship and join table''\<rparr>
          else
            s\<lparr>tables :=
                 (case find (\<lambda>t. t_id t = childTableId rel) (tables s) of
                    None \<Rightarrow> tables s
                  | Some child \<Rightarrow>
                      map (\<lambda>t. if t_id t = t_id child
                                then child\<lparr>t_fields :=
                                  filter (\<lambda>f. \<not> (truthy (isForeignKey f) \<and>
                                                  references f = Some (parentTableId rel)))
                                    (t_fields child)\<rparr>
                                else t)
                        (tables s)),
              relationships := filter (\<lambda>r. r_id r \<noteq> relId) (relationships s),
              message := ''Deleted relationship''\<rparr>)"

subsection \<open>Export and import\<close>

text \<open>
  \<^verbatim>\<open>exportJSON\<close> writes \<^verbatim>\<open>JSON.stringify({ tables, relationships, dialect }, null, 2)\<close> and
  \<^verbatim>\<open>importJSON\<close> reads a file with \<^verbatim>\<open>JSON.parse\<close>. Both are functions of the runtime, not of
  this program; on documents built from strings, booleans, arrays and objects (a property
  whose value is \<^verbatim>\<open>undefined\<close> is left out, and reads as \<^verbatim>\<open>undefined\<close> again) the second
  undoes the first. The model works on the document, not on its text: a \<open>project\<close> is the
  parsed object, with \<open>None\<close> for a \<^verbatim>\<open>tables\<close> that is not an array and for a
  \<^verbatim>\<open>relationships\<close> or \<^verbatim>\<open>dialect\<close> that is missing. The argument of \<open>importJSON\<close> is \<open>None\<close>
  when no file was chosen, \<open>Some (Inl msg)\<close> when parsing or reading \<^verbatim>\<open>data.tables\<close> threw an
  error with that message, and \<open>Some (Inr data)\<close> otherwise.
\<close>

record project =
  p_tables :: "table list option"
  p_relationships :: "relationship list option"
  p_dialect :: "string option"

definition exportJSON :: "state \<Rightarrow> project" where
  "exportJSON s =
     \<lparr>p_tables = Some (tables s), p_relationships = Some (relationships s),
      p_dialect = Some (dialect s)\<rparr>"

definition importJSON :: "(string + project) option \<Rightarrow> state \<Rightarrow> state" where
  "importJSON file s =
     (case file of
        None \<Rightarrow> s
      | Some (Inl err) \<Rightarrow> s\<lparr>message := ''Import failed: '' @ err\<rparr>
      | Some (Inr data) \<Rightarrow>
          (case p_tables data of
             None \<Rightarrow> s\<lparr>message := ''Import failed: Invalid file''\<rparr>
           | Some ts \<Rightarrow>
               s\<lparr>tables := ts,
                 relationships := (case p_relationships data of None \<Rightarrow> [] | Some rs \<Rightarrow> rs),
                 dialect :=
                   (case p_dialect data of
                      None \<Rightarrow> ''postgres''
                    | Some d \<Rightarrow> if d = [] then ''postgres'' else d),
                 message := ''Project imported''\<rparr>))"

subsection \<open>SQL generation\<close>

text \<open>
  \<^verbatim>\<open>generateSQL\<close>. Each \<^verbatim>\<open>forEach\<close> with its \<^verbatim>\<open>push\<close> calls is a left fold over the array,
  with the array being built as the accumulator. The argument is \<open>None\<close> when the call
  passes no dialect, as every call in the component does.
\<close>

definition escapeId :: "string \<Rightarrow> string \<Rightarrow> string" where
  "escapeId forDialect n =
     (if forDialect = ''mysql'' then [CHR 0x60] @ n @ [CHR 0x60]
      else [CHR 0x22] @ n @ [CHR 0x22])"

definition columnParts :: "string \<Rightarrow> field \<Rightarrow> string list" where
  "columnParts forDialect f =
     (let parts = [escapeId forDialect (f_name f) @ '' '' @ f_type f];
          parts = (if truthy (isPrimary f) then parts @ [''PRIMARY KEY''] else parts);
          parts = (if \<not> truthy (isNull f) \<and> \<not> truthy (isPrimary f)
                   then parts @ [''NOT NULL''] else parts);
          parts = (if truthy (isUnique f) then parts @ [''UNIQUE''] else parts);
          parts = (case f_default f of
                     None \<Rightarrow> parts
                   | Some v \<Rightarrow>
                       if v \<noteq> [] then parts @ [''DEFAULT '' @ [CHR 0x27] @ v @ [CHR 0x27]]
                       else parts)
      in parts)"

definition pushColumn :: "string \<Rightarrow> string list \<Rightarrow> field \<Rightarrow> string list" where
  "pushColumn forDialect defs f = defs @ [''  '' @ join '' '' (columnParts forDialect f)]"

text \<open>\<^verbatim>\<open>parent.fields.find(p => p.isPrimary)?.name || 'id'\<close>\<close>

definition pkName :: "table \<Rightarrow> string" where
  "pkName parent =
     (case find (\<lambda>p. truthy (isPrimary p)) (t_fields parent) of
        None \<Rightarrow> ''id''
      | Some p \<Rightarrow> if f_name p \<noteq> [] then f_name p else ''id'')"

definition pushForeignKey :: "string \<Rightarrow> table list \<Rightarrow> string list \<Rightarrow> field \<Rightarrow> string list" where
  "pushForeignKey forDialect ts defs fk =
     (case find (\<lambda>tt. Some (t_id tt) = references fk) ts of
        None \<Rightarrow> defs
      | Some parent \<Rightarrow>
          defs @
          [''  ,FOREIGN KEY ('' @ escapeId forDialect (f_name fk) @ '') REFERENCES '' @
           escapeId forDialect (t_name parent) @ ''('' @ escapeId forDialect (pkName parent) @ '')''])"

definition pushTable :: "string \<Rightarrow> table list \<Rightarrow> string list \<Rightarrow> table \<Rightarrow> string list" where
  "pushTable forDialect ts lines t =
     (let lines = lines @ [''CREATE TABLE '' @ escapeId forDialect (t_name t) @ '' (''];
          defs = foldl (pushColumn forDialect) [] (t_fields t);
          defs = foldl (pushForeignKey forDialect ts) defs
                   (filter (\<lambda>f. truthy (isForeignKey f) \<and> truthyS (references f)) (t_fields t));
          lines = lines @ [join ('','' @ [CHR 0x0A]) defs];
          lines = lines @ ['');'' @ [CHR 0x0A]]
      in lines)"

definition generateSQL :: "string option \<Rightarrow> state \<Rightarrow> string" where
  "generateSQL arg s =
     (let forDialect = (case arg of None \<Rightarrow> dialect s | Some d \<Rightarrow> d);
          lines = [''-- Generated by SQLMaker'', ''-- Dialect: '' @ forDialect, []];
          lines = foldl (pushTable forDialect (tables s)) lines (tables s)
      in join [CHR 0x0A] lines)"

subsection \<open>Vocabulary of the properties\<close>

text \<open>A name collides with a collection when some item has it, compared in lower case.\<close>

definition collides :: "runtime \<Rightarrow> table list \<Rightarrow> string \<Rightarrow> bool" where
  "collides rt list name =
     list_ex (\<lambda>x. toLowerCase rt (t_name x) = toLowerCase rt name) list"

text \<open>
  The one condition on the runtime: the names \<^verbatim>\<open>base_1\<close>, \<^verbatim>\<open>base_2\<close>, ... stay pairwise
  different in lower case. \<^verbatim>\<open>String.prototype.toLowerCase\<close> meets it for every \<open>base\<close>: it
  leaves the underscore and the digits as they are, and what it makes of the characters
  of \<open>base\<close> does not depend on the digits that follow the underscore.
\<close>

definition suffixesDiffer :: "runtime \<Rightarrow> string \<Rightarrow> bool" where
  "suffixesDiffer rt base =
     (\<forall>i j. toLowerCase rt (suffixed base i) = toLowerCase rt (suffixed base j) \<longrightarrow> i = j)"

text \<open>
  What the loop of \<^verbatim>\<open>uniqueName\<close> returns, started at \<open>name\<close> with counter \<open>i\<close>: a name whose
  lower case is not in the set; \<open>name\<close> itself when that is so for \<open>name\<close>; else
  \<^verbatim>\<open>base_k\<close> for the first \<open>k\<close> from \<open>i\<close> on for which it is so.
\<close>

definition firstFree ::
  "runtime \<Rightarrow> string \<Rightarrow> string list \<Rightarrow> string \<Rightarrow> nat \<Rightarrow> string \<Rightarrow> bool" where
  "firstFree rt base existing name i r =
     (toLowerCase rt r \<notin> set existing \<and>
      (toLowerCase rt name \<notin> set existing \<longrightarrow> r = name) \<and>
      (toLowerCase rt name \<in> set existing \<longrightarrow>
         (\<exists>k\<ge>i. r = suffixed base k \<and>
            (\<forall>j. i \<le> j \<and> j < k \<longrightarrow> toLowerCase rt (suffixed base j) \<in> set existing))))"

definition pending :: "runtime \<Rightarrow> string \<Rightarrow> string list \<Rightarrow> nat \<Rightarrow> string set" where
  "pending rt base existing i =
     set existing \<inter> {toLowerCase rt (suffixed base j) | j. i \<le> j}"

text \<open>
  The drafts that validation must refuse: no name after trimming, no field, no field
  with \<^verbatim>\<open>isPrimary = true\<close>, or two fields with the same name in lower case.
\<close>

definition invalidDraft :: "runtime \<Rightarrow> table_draft \<Rightarrow> bool" where
  "invalidDraft rt tableDraft =
     (trim rt (d_name tableDraft) = [] \<or>
      d_fields tableDraft = [] \<or>
      \<not> list_ex (\<lambda>f. isPrimary f = Some True) (d_fields tableDraft) \<or>
      \<not> distinct (map (\<lambda>f. toLowerCase rt (f_name f)) (d_fields tableDraft)))"

definition validationErrors :: "string list" where
  "validationErrors =
     [''Table name required'', ''Table name already exists'', ''At least one field required'',
      ''Primary key required'', ''Duplicate field names'']"

text \<open>
  The endpoints of a relationship draft that \<^verbatim>\<open>saveRelationship\<close> accepts: two different,
  non-empty ids, each found in the store (\<open>A\<close> is the parent, \<open>B\<close> the child).
\<close>

definition endpoints :: "rel_draft \<Rightarrow> state \<Rightarrow> table \<Rightarrow> table \<Rightarrow> bool" where
  "endpoints relDraft s A B =
     (d_parentTableId relDraft \<noteq> [] \<and> d_childTableId relDraft \<noteq> [] \<and>
      d_parentTableId relDraft \<noteq> d_childTableId relDraft \<and>
      find (\<lambda>t. t_id t = d_parentTableId relDraft) (tables s) = Some A \<and>
      find (\<lambda>t. t_id t = d_childTableId relDraft) (tables s) = Some B)"

definition tableById :: "string \<Rightarrow> state \<Rightarrow> table option" where
  "tableById i s = find (\<lambda>t. t_id t = i) (tables s)"

text \<open>A field whose name is \<open>n\<close>, compared in lower case.\<close>

definition matchesName :: "runtime \<Rightarrow> string \<Rightarrow> field \<Rightarrow> bool" where
  "matchesName rt n f = (toLowerCase rt (f_name f) = toLowerCase rt n)"

text \<open>
  The resolution of the foreign-key name as the specification words it: the draft's
  \<^verbatim>\<open>childField\<close> if it is not empty, else the parent's name in lower case with \<^verbatim>\<open>_id\<close>.
\<close>

definition fkName_spec :: "runtime \<Rightarrow> rel_draft \<Rightarrow> table \<Rightarrow> string" where
  "fkName_spec rt relDraft parent =
     (if d_childField relDraft \<noteq> [] then d_childField relDraft
      else toLowerCase rt (t_name parent) @ ''_id'')"

text \<open>
  The generated text, as the specification words it. A column line is the quoted name and
  the type, followed in this order by \<^verbatim>\<open>PRIMARY KEY\<close>, \<^verbatim>\<open>NOT NULL\<close>, \<^verbatim>\<open>UNIQUE\<close> and
  \<^verbatim>\<open>DEFAULT '...'\<close>, each under its condition.
\<close>

definition columnLine_spec :: "string \<Rightarrow> field \<Rightarrow> string" where
  "columnLine_spec forDialect f =
     ''  '' @ escapeId forDialect (f_name f) @ '' '' @ f_type f @
     (if truthy (isPrimary f) then '' PRIMARY KEY'' else []) @
     (if \<not> truthy (isNull f) \<and> \<not> truthy (isPrimary f) then '' NOT NULL'' else []) @
     (if truthy (isUnique f) then '' UNIQUE'' else []) @
     (case f_default f of
        None \<Rightarrow> []
      | Some v \<Rightarrow> if v \<noteq> [] then '' DEFAULT '' @ [CHR 0x27] @ v @ [CHR 0x27] else [])"

text \<open>
  The foreign-key fields that \<open>generateSQL\<close> looks at (\<open>fkFilter\<close>, its \<^verbatim>\<open>filter\<close>), those
  among them whose \<^verbatim>\<open>references\<close> is the id of a table of the store (\<open>resolvable\<close>), and the
  fields marked as foreign keys whose \<^verbatim>\<open>references\<close> is the id of no table (\<open>dangling\<close>).
\<close>

definition fkFilter :: "field \<Rightarrow> bool" where
  "fkFilter f = (truthy (isForeignKey f) \<and> truthyS (references f))"

definition resolvable :: "table list \<Rightarrow> field \<Rightarrow> bool" where
  "resolvable ts f = (fkFilter f \<and> list_ex (\<lambda>tt. Some (t_id tt) = references f) ts)"

definition dangling :: "table list \<Rightarrow> field \<Rightarrow> bool" where
  "dangling ts f = (truthy (isForeignKey f) \<and> \<not> list_ex (\<lambda>tt. Some (t_id tt) = references f) ts)"

text \<open>The clause of a foreign-key line, and the lines that the second loop pushes.\<close>

definition fkClause :: "string \<Rightarrow> table list \<Rightarrow> field \<Rightarrow> string" where
  "fkClause forDialect ts fk =
     (case find (\<lambda>tt. Some (t_id tt) = references fk) ts of
        None \<Rightarrow> []
      | Some parent \<Rightarrow>
          ''FOREIGN KEY ('' @ escapeId forDialect (f_name fk) @ '') REFERENCES '' @
          escapeId forDialect (t_name parent) @ ''('' @ escapeId forDialect (pkName parent) @ '')'')"

definition foreignKeyLines :: "string \<Rightarrow> table list \<Rightarrow> field list \<Rightarrow> string list" where
  "foreignKeyLines forDialect ts fs = foldl (pushForeignKey forDialect ts) [] (filter fkFilter fs)"

text \<open>The fixed lines of the output, and the dialect a call works with.\<close>

definition header :: "string \<Rightarrow> string list" where
  "header forDialect = [''-- Generated by SQLMaker'', ''-- Dialect: '' @ forDialect, []]"

definition forDialectOf :: "string option \<Rightarrow> state \<Rightarrow> string" where
  "forDialectOf arg s = (case arg of None \<Rightarrow> dialect s | Some d \<Rightarrow> d)"

definition createLine :: "string \<Rightarrow> table \<Rightarrow> string" where
  "createLine forDialect t = ''CREATE TABLE '' @ escapeId forDialect (t_name t) @ '' (''"

definition commaJoin :: "string list \<Rightarrow> string" where
  "commaJoin defs = join ('','' @ [CHR 0x0A]) defs"

definition closeLine :: string where
  "closeLine = '');'' @ [CHR 0x0A]"

subsection \<open>Concrete inputs for the examples\<close>

text \<open>
  A runtime for the examples. On text of the ASCII letters, digits, space and underscore,
  which is all that the examples use, \<^verbatim>\<open>toLowerCase\<close> replaces \<^verbatim>\<open>A\<close>..\<^verbatim>\<open>Z\<close> by \<^verbatim>\<open>a\<close>..\<^verbatim>\<open>z\<close>
  and \<^verbatim>\<open>trim\<close> removes the white space at both ends; \<open>ascii\<close> does this. No general statement
  below is about \<open>ascii\<close>.
\<close>

definition lowerChar :: "char \<Rightarrow> char" where
  "lowerChar c =
     (case map_of (zip ''ABCDEFGHIJKLMNOPQRSTUVWXYZ'' ''abcdefghijklmnopqrstuvwxyz'') c of
        None \<Rightarrow> c
      | Some l \<Rightarrow> l)"

definition isSpace :: "char \<Rightarrow> bool" where
  "isSpace c = (c \<in> set [CHR 0x09, CHR 0x0A, CHR 0x0B, CHR 0x0C, CHR 0x0D, CHR 0x20])"

definition ascii :: runtime where
  "ascii =
     \<lparr>toLowerCase = map lowerChar,
      trim = (\<lambda>s. rev (dropWhile isSpace (rev (dropWhile isSpace s))))\<rparr>"

definition named :: "string \<Rightarrow> table" where
  "named n = \<lparr>t_id = n, t_name = n, t_fields = []\<rparr>"

definition emptyState :: state where
  "emptyState =
     \<lparr>tables = [], relationships = [], dialect = ''postgres'', message = [],
      showTableModal = True, showRelModal = False\<rparr>"

definition users :: table where
  "users = \<lparr>t_id = ''u1'', t_name = ''Users'', t_fields = [DEFAULT_FIELD ''f1'']\<rparr>"

definition orders :: table where
  "orders =
     \<lparr>t_id = ''o1'', t_name = ''orders'',
      t_fields =
        [DEFAULT_FIELD ''f2'',
         \<lparr>f_id = ''f3'', f_name = ''Total'', f_type = ''DECIMAL'', isPrimary = Some False,
          isNull = Some True, isUnique = Some False, autoIncrement = Some False,
          f_default = Some ''0'', isForeignKey = None, references = None\<rparr>]\<rparr>"

definition untyped :: table where
  "untyped = \<lparr>t_id = ''u1'', t_name = ''Users'', t_fields = [(DEFAULT_FIELD ''f1'')\<lparr>f_type := []\<rparr>]\<rparr>"

definition tags :: table where
  "tags = \<lparr>t_id = ''t1'', t_name = ''tags'', t_fields = [DEFAULT_FIELD ''f4'']\<rparr>"

definition usersFk :: field where
  "usersFk =
     \<lparr>f_id = ''1701'', f_name = ''users_id'', f_type = ''INTEGER'', isPrimary = None,
      isNull = Some False, isUnique = Some False, autoIncrement = None, f_default = None,
      isForeignKey = Some True, references = Some ''u1''\<rparr>"

definition ordersLinked :: table where
  "ordersLinked = orders\<lparr>t_fields := t_fields orders @ [usersFk]\<rparr>"

definition ids0 :: fresh_ids where
  "ids0 =
     \<lparr>id_table = ''j1'', id_rel = ''r1'', id_default = ''f9'', now_a = ''1700'',
      now_b = ''1700'', now_fk = ''1701''\<rparr>"

definition twoTables :: state where
  "twoTables = emptyState\<lparr>tables := [users, orders]\<rparr>"

definition link :: "string \<Rightarrow> string \<Rightarrow> rel_draft" where
  "link ty cf =
     \<lparr>d_parentTableId = ''u1'', d_childTableId = ''o1'', d_parentField = [],
      d_childField = cf, d_type = ty\<rparr>"

definition mkRel :: "string \<Rightarrow> string \<Rightarrow> string \<Rightarrow> string \<Rightarrow> relationship" where
  "mkRel i p c ty =
     \<lparr>r_id = i, parentTableId = p, childTableId = c, parentField = [], childField = [],
      r_type = ty\<rparr>"

definition linked :: state where
  "linked =
     emptyState
       \<lparr>tables := [users, ordersLinked, tags],
        relationships := [mkRel ''r1'' ''u1'' ''o1'' ''ONE_TO_MANY'', mkRel ''r2'' ''t1'' ''o1'' ''ONE_TO_MANY'']\<rparr>"

definition usersTags :: table where
  "usersTags = joinTable ascii ids0 ''Users_tags_join'' users tags"

definition joined :: state where
  "joined =
     emptyState
       \<lparr>tables := [users, tags, usersTags],
        relationships := [mkRel ''r1'' ''u1'' ''t1'' ''MANY_TO_MANY'', mkRel ''r2'' ''t1'' ''u1'' ''ONE_TO_ONE'']\<rparr>"

section \<open>Properties\<close>

subsection \<open>Name resolver\<close>

lemma collides_iff:
  "collides rt list name \<longleftrightarrow>
   toLowerCase rt name \<in> set (map (\<lambda>x. toLowerCase rt (t_name x)) list)"
  by (force simp: collides_def list_ex_iff)

lemma firstFree_step:
  assumes "toLowerCase rt name \<in> set existing"
    and "firstFree rt base existing (suffixed base i) (i + 1) r"
  shows "firstFree rt base existing name i r"
proof (cases "toLowerCase rt (suffixed base i) \<in> set existing")
  case False
  with assms(2) have "r = suffixed base i" "toLowerCase rt r \<notin> set existing"
    by (simp_all add: firstFree_def)
  with assms(1) show ?thesis
    unfolding firstFree_def by (intro conjI impI exI[of _ i]) auto
next
  case True
  with assms(2) obtain k where k: "i + 1 \<le> k" "r = suffixed base k"
    "toLowerCase rt r \<notin> set existing"
    "\<forall>j. i + 1 \<le> j \<and> j < k \<longrightarrow> toLowerCase rt (suffixed base j) \<in> set existing"
    by (auto simp: firstFree_def)
  have "\<forall>j. i \<le> j \<and> j < k \<longrightarrow> toLowerCase rt (suffixed base j) \<in> set existing"
  proof (intro allI impI)
    fix j assume "i \<le> j \<and> j < k"
    then consider "j = i" | "i + 1 \<le> j \<and> j < k" by force
    then show "toLowerCase rt (suffixed base j) \<in> set existing"
      using True k(4) by cases auto
  qed
  with k assms(1) show ?thesis
    unfolding firstFree_def by (intro conjI impI exI[of _ k]) auto
qed

text \<open>Whatever the loop returns is the first free name: induction on the loop.\<close>

lemma uniqueName_loop_partial:
  assumes "uniqueName_loop rt base existing name i = Some r"
  shows "firstFree rt base existing name i r"
proof (rule uniqueName_loop.raw_induct[where P = firstFree, OF _ assms])
  fix f rt base existing name i r
  assume IH: "\<And>rt base existing name i r.
      f rt base existing name i = Some r \<Longrightarrow> firstFree rt base existing name i r"
    and eq: "(if toLowerCase rt name \<in> set existing
      then f rt base existing (suffixed base i) (i + 1) else Some name) = Some r"
  show "firstFree rt base existing name i r"
  proof (cases "toLowerCase rt name \<in> set existing")
    case True
    with eq have "f rt base existing (suffixed base i) (i + 1) = Some r" by simp
    from True IH[OF this] show ?thesis by (rule firstFree_step)
  next
    case False
    with eq show ?thesis by (simp add: firstFree_def)
  qed
qed

text \<open>
  The loop ends when the suffixed names differ in lower case: each round either leaves
  the loop or uses up one member of the finite set.
\<close>

lemma pending_finite: "finite (pending rt base existing i)"
  by (simp add: pending_def)

lemma pending_Suc_subset: "pending rt base existing (Suc i) \<subseteq> pending rt base existing i"
  by (auto simp: pending_def)

lemma pending_Suc_less:
  assumes "suffixesDiffer rt base" "toLowerCase rt (suffixed base i) \<in> set existing"
  shows "card (pending rt base existing (Suc i)) < card (pending rt base existing i)"
proof (rule psubset_card_mono[OF pending_finite])
  have "toLowerCase rt (suffixed base i) \<in> pending rt base existing i"
    using assms(2) by (auto simp: pending_def)
  moreover have "toLowerCase rt (suffixed base i) \<notin> pending rt base existing (Suc i)"
    using assms(1) by (fastforce simp: pending_def suffixesDiffer_def)
  ultimately show "pending rt base existing (Suc i) \<subset> pending rt base existing i"
    using pending_Suc_subset by blast
qed

lemma uniqueName_loop_returns:
  assumes "suffixesDiffer rt base"
  shows "\<exists>r. uniqueName_loop rt base existing name i = Some r"
proof (induction "2 * card (pending rt base existing i) +
    (if toLowerCase rt name \<in> set existing then 1 else (0::nat))"
    arbitrary: name i rule: less_induct)
  case less
  show ?case
  proof (cases "toLowerCase rt name \<in> set existing")
    case False
    then show ?thesis by (subst uniqueName_loop.simps) simp
  next
    case True
    have "2 * card (pending rt base existing (i + 1)) +
        (if toLowerCase rt (suffixed base i) \<in> set existing then 1 else 0)
      < 2 * card (pending rt base existing i) +
        (if toLowerCase rt name \<in> set existing then 1 else 0)"
      using True pending_Suc_less[OF assms, of i existing]
        card_mono[OF pending_finite pending_Suc_subset, of rt base existing i]
      by auto
    from less[OF this] obtain r where
      "uniqueName_loop rt base existing (suffixed base i) (i + 1) = Some r" by blast
    with True show ?thesis by (subst uniqueName_loop.simps) simp
  qed
qed

lemma uniqueName_returns:
  "suffixesDiffer rt base \<Longrightarrow> \<exists>name. uniqueName rt base list = Some name"
  unfolding uniqueName_def by (rule uniqueName_loop_returns)

lemma uniqueName_no_collision:
  "\<not> collides rt list base \<Longrightarrow> uniqueName rt base list = Some base"
  unfolding collides_iff uniqueName_def by (subst uniqueName_loop.simps) simp

lemma uniqueName_fresh:
  assumes "uniqueName rt base list = Some name"
  shows "\<not> collides rt list name"
  using uniqueName_loop_partial[OF assms[unfolded uniqueName_def]]
  unfolding collides_iff firstFree_def by blast

lemma uniqueName_first:
  assumes "uniqueName rt base list = Some name" and "collides rt list base"
  shows "\<exists>k\<ge>1. name = base @ ''_'' @ String_nat k \<and>
     (\<forall>j. 1 \<le> j \<and> j < k \<longrightarrow> collides rt list (base @ ''_'' @ String_nat j))"
  using uniqueName_loop_partial[OF assms(1)[unfolded uniqueName_def]] assms(2)
  unfolding collides_iff firstFree_def suffixed_def by blast

text \<open>The runtime of the examples keeps the suffixed names apart.\<close>

lemma digit_cases:
  "d < 10 \<Longrightarrow>
   d = 0 \<or> d = 1 \<or> d = 2 \<or> d = 3 \<or> d = 4 \<or> d = 5 \<or> d = 6 \<or> d = 7 \<or> d = 8 \<or> d = (9::nat)"
  by arith

lemma lowerChar_digit: "d < 10 \<Longrightarrow> lowerChar (digitChar d) = digitChar d"
  by (drule digit_cases) (auto simp: lowerChar_def digitChar_def)

lemma digitChar_inj: "d < 10 \<Longrightarrow> e < 10 \<Longrightarrow> digitChar d = digitChar e \<Longrightarrow> d = e"
  apply (drule digit_cases)
  apply (drule digit_cases)
  apply (auto simp: digitChar_def)
  done

lemma String_nat_small: "n < 10 \<Longrightarrow> String_nat n = [digitChar n]"
  by (subst String_nat.simps) simp

lemma String_nat_large:
  "\<not> n < 10 \<Longrightarrow> String_nat n = String_nat (n div 10) @ [digitChar (n mod 10)]"
  by (subst String_nat.simps) simp

lemma String_nat_nonempty: "String_nat n \<noteq> []"
  by (subst String_nat.simps) simp

lemma String_nat_inj: "String_nat m = String_nat n \<Longrightarrow> m = n"
proof (induction m arbitrary: n rule: String_nat.induct)
  case (1 m)
  note eq = \<open>String_nat m = String_nat n\<close>
  show ?case
  proof (cases "m < 10")
    case m_small: True
    show ?thesis
    proof (cases "n < 10")
      case True
      with m_small eq show ?thesis
        by (auto simp: String_nat_small dest: digitChar_inj)
    next
      case False
      with m_small eq have "String_nat (n div 10) = []"
        by (simp add: String_nat_small String_nat_large)
      then show ?thesis by (simp add: String_nat_nonempty)
    qed
  next
    case m_large: False
    show ?thesis
    proof (cases "n < 10")
      case True
      with m_large eq have "String_nat (m div 10) = []"
        by (simp add: String_nat_small String_nat_large)
      then show ?thesis by (simp add: String_nat_nonempty)
    next
      case False
      with m_large eq have front: "String_nat (m div 10) = String_nat (n div 10)"
        and last: "digitChar (m mod 10) = digitChar (n mod 10)"
        by (simp_all add: String_nat_large)
      from "1.IH"[OF m_large front] have "m div 10 = n div 10" .
      moreover from last have "m mod 10 = n mod 10"
        by (auto dest!: digitChar_inj[rotated 2])
      ultimately show ?thesis by (metis div_mult_mod_eq)
    qed
  qed
qed

lemma lowerChar_String_nat: "map lowerChar (String_nat n) = String_nat n"
  by (induction n rule: String_nat.induct)
     (subst (1 2) String_nat.simps, auto simp: lowerChar_digit)

lemma ascii_suffixesDiffer: "suffixesDiffer ascii base"
  unfolding suffixesDiffer_def
proof (intro allI impI)
  fix i j
  assume "toLowerCase ascii (suffixed base i) = toLowerCase ascii (suffixed base j)"
  then have "map lowerChar (String_nat i) = map lowerChar (String_nat j)"
    by (simp add: suffixed_def ascii_def)
  then show "i = j"
    by (simp add: lowerChar_String_nat String_nat_inj)
qed

text \<open>
  C1. \<open>uniqueName rt base list\<close> is a function of its arguments, the runtime's
  \<^verbatim>\<open>toLowerCase\<close> among them. When \<open>base\<close> does not collide with the collection it returns
  \<open>base\<close>. Whatever it returns does not collide with the collection, and when \<open>base\<close>
  collides it is \<open>base_k\<close> for the first \<open>k \<ge> 1\<close> whose \<open>base_k\<close> does not collide (every
  \<open>base_j\<close> with \<open>1 \<le> j < k\<close> collides). It returns for every collection when the suffixed
  names differ in lower case, as they do under \<^verbatim>\<open>String.prototype.toLowerCase\<close>.
\<close>

theorem uniqueName_first_free:
  "(\<not> collides rt list base \<longrightarrow> uniqueName rt base list = Some base) \<and>
   (\<forall>name. uniqueName rt base list = Some name \<longrightarrow>
      \<not> collides rt list name \<and>
      (collides rt list base \<longrightarrow>
         (\<exists>k\<ge>1. name = base @ ''_'' @ String_nat k \<and>
            (\<forall>j. 1 \<le> j \<and> j < k \<longrightarrow> collides rt list (base @ ''_'' @ String_nat j))))) \<and>
   (suffixesDiffer rt base \<longrightarrow> (\<exists>name. uniqueName rt base list = Some name))"
proof (intro conjI allI impI)
  assume "\<not> collides rt list base"
  then show "uniqueName rt base list = Some base" by (rule uniqueName_no_collision)
next
  fix name
  assume "uniqueName rt base list = Some name"
  then show "\<not> collides rt list name" by (rule uniqueName_fresh)
next
  fix name
  assume "uniqueName rt base list = Some name" and "collides rt list base"
  then show "\<exists>k\<ge>1. name = base @ ''_'' @ String_nat k \<and>
      (\<forall>j. 1 \<le> j \<and> j < k \<longrightarrow> collides rt list (base @ ''_'' @ String_nat j))"
    by (rule uniqueName_first)
next
  assume "suffixesDiffer rt base"
  then show "\<exists>name. uniqueName rt base list = Some name" by (rule uniqueName_returns)
qed

theorem uniqueName_first_free_witness:
  "suffixesDiffer ascii ''table'' \<and>
   collides ascii [named ''Table'', named ''TABLE_1'', named ''x''] ''table'' \<and>
   uniqueName ascii ''table'' [named ''Table'', named ''TABLE_1'', named ''x''] = Some ''table_2'' \<and>
   \<not> collides ascii [named ''Table'', named ''TABLE_1'', named ''x''] ''table_2'' \<and>
   collides ascii [named ''Table'', named ''TABLE_1'', named ''x''] ''table_1'' \<and>
   \<not> collides ascii [named ''Table'', named ''TABLE_1''] ''users'' \<and>
   uniqueName ascii ''users'' [named ''Table'', named ''TABLE_1''] = Some ''users''"
  using uniqueName_first_free[of ascii "[named ''Table'', named ''TABLE_1'', named ''x'']" "''table''"]
    uniqueName_first_free[of ascii "[named ''Table'', named ''TABLE_1'']" "''users''"]
    ascii_suffixesDiffer[of "''table''"]
  by (simp add: collides_def uniqueName_def uniqueName_loop.simps named_def ascii_def
      lowerChar_def suffixed_def String_nat.simps digitChar_def)

subsection \<open>Schema store\<close>

text \<open>
  C2. Committing a draft that has an empty trimmed name, or no field, or no primary
  field, or two fields whose names are equal in lower case, only sets the message to one
  of the validation errors: the tables and the relationships are the ones before, and so
  is everything else in the state. This holds whatever \<^verbatim>\<open>trim\<close> and \<^verbatim>\<open>toLowerCase\<close> do.
\<close>

theorem saveTable_rejects_invalid:
  assumes "invalidDraft rt tableDraft"
  shows "\<exists>m. m \<in> set validationErrors \<and>
           saveTable rt fresh editingTable tableDraft s = s\<lparr>message := m\<rparr> \<and>
           tables (saveTable rt fresh editingTable tableDraft s) = tables s \<and>
           relationships (saveTable rt fresh editingTable tableDraft s) = relationships s"
proof -
  let ?names = "map (\<lambda>f. toLowerCase rt (f_name f)) (d_fields tableDraft)"
  let ?conflict = "list_ex
      (\<lambda>t. toLowerCase rt (trim rt (t_name t)) = toLowerCase rt (trim rt (d_name tableDraft)) \<and>
        Some (t_id t) \<noteq> editingTable) (tables s)"
  have rejected: "saveTable rt fresh editingTable tableDraft s = s\<lparr>message := m\<rparr> \<Longrightarrow>
      m \<in> set validationErrors \<Longrightarrow> ?thesis" for m
    by (intro exI[of _ m]) simp
  consider (name) "trim rt (d_name tableDraft) = []"
    | (conflict) "trim rt (d_name tableDraft) \<noteq> []" "?conflict"
    | (nofields) "trim rt (d_name tableDraft) \<noteq> []" "\<not> ?conflict" "d_fields tableDraft = []"
    | (nopk) "trim rt (d_name tableDraft) \<noteq> []" "\<not> ?conflict" "d_fields tableDraft \<noteq> []"
        "\<not> list_ex (\<lambda>f. truthy (isPrimary f)) (d_fields tableDraft)"
    | (dup) "trim rt (d_name tableDraft) \<noteq> []" "\<not> ?conflict" "d_fields tableDraft \<noteq> []"
        "list_ex (\<lambda>f. truthy (isPrimary f)) (d_fields tableDraft)"
        "\<not> distinct ?names"
    using assms unfolding invalidDraft_def truthy_def by blast
  then show ?thesis
  proof cases
    case name
    then have "saveTable rt fresh editingTable tableDraft s = s\<lparr>message := ''Table name required''\<rparr>"
      by (simp add: saveTable_def)
    then show ?thesis by (rule rejected) (simp add: validationErrors_def)
  next
    case conflict
    then have "saveTable rt fresh editingTable tableDraft s =
        s\<lparr>message := ''Table name already exists''\<rparr>"
      by (simp add: saveTable_def Let_def)
    then show ?thesis by (rule rejected) (simp add: validationErrors_def)
  next
    case nofields
    then have "saveTable rt fresh editingTable tableDraft s =
        s\<lparr>message := ''At least one field required''\<rparr>"
      by (simp add: saveTable_def Let_def)
    then show ?thesis by (rule rejected) (simp add: validationErrors_def)
  next
    case nopk
    then have "saveTable rt fresh editingTable tableDraft s = s\<lparr>message := ''Primary key required''\<rparr>"
      by (simp add: saveTable_def Let_def)
    then show ?thesis by (rule rejected) (simp add: validationErrors_def)
  next
    case dup
    then have "saveTable rt fresh editingTable tableDraft s = s\<lparr>message := ''Duplicate field names''\<rparr>"
      by (simp add: saveTable_def Let_def)
    then show ?thesis by (rule rejected) (simp add: validationErrors_def)
  qed
qed

theorem saveTable_rejects_invalid_witness:
  "invalidDraft ascii \<lparr>d_name = ''users'', d_fields = []\<rparr> \<and>
   saveTable ascii ''t1'' None \<lparr>d_name = ''users'', d_fields = []\<rparr> emptyState =
     emptyState\<lparr>message := ''At least one field required''\<rparr> \<and>
   tables (saveTable ascii ''t1'' None \<lparr>d_name = ''users'', d_fields = []\<rparr> emptyState) = [] \<and>
   invalidDraft ascii
     \<lparr>d_name = ''users'', d_fields = [DEFAULT_FIELD ''f1'', (DEFAULT_FIELD ''f2'')\<lparr>f_name := ''ID''\<rparr>]\<rparr> \<and>
   saveTable ascii ''t1'' None
     \<lparr>d_name = ''users'', d_fields = [DEFAULT_FIELD ''f1'', (DEFAULT_FIELD ''f2'')\<lparr>f_name := ''ID''\<rparr>]\<rparr>
     emptyState =
     emptyState\<lparr>message := ''Duplicate field names''\<rparr>"
  using saveTable_rejects_invalid[of ascii "\<lparr>d_name = ''users'', d_fields = []\<rparr>" "''t1''" None emptyState]
  by (simp add: invalidDraft_def saveTable_def emptyState_def ascii_def isSpace_def lowerChar_def
      DEFAULT_FIELD_def truthy_def)

lemma find_SomeD: "find P xs = Some x \<Longrightarrow> P x \<and> x \<in> set xs"
  by (induction xs) (auto split: if_splits)

lemma find_append_left: "find P xs = Some x \<Longrightarrow> find P (xs @ ys) = Some x"
  by (induction xs) auto

lemma find_map_replace:
  "find (\<lambda>t. t_id t = i) ts = Some c \<Longrightarrow> t_id u = i \<Longrightarrow>
   find (\<lambda>t. t_id t = i) (map (\<lambda>t. if t_id t = i then u else t) ts) = Some u"
  by (induction ts) (auto split: if_splits)

lemma find_None_filter: "find P (filter (\<lambda>x. \<not> P x) xs) = None"
  by (induction xs) auto

lemma filter_remove1:
  "distinct (map f xs) \<Longrightarrow> find (\<lambda>x. f x = i) xs = Some x \<Longrightarrow>
   filter (\<lambda>y. f y \<noteq> i) xs = remove1 x xs"
proof (induction xs)
  case Nil
  then show ?case by simp
next
  case (Cons a xs)
  show ?case
  proof (cases "f a = i")
    case True
    with Cons.prems have "x = a" and "\<forall>y\<in>set xs. f y \<noteq> i" by (auto simp: image_iff)
    then show ?thesis using True by (simp add: filter_id_conv)
  next
    case False
    with Cons.prems have found: "find (\<lambda>x. f x = i) xs = Some x" by simp
    then have "f x = i" by (auto dest: find_SomeD)
    with False have "x \<noteq> a" by auto
    with Cons False found show ?thesis by simp
  qed
qed

text \<open>
  C6. For a table id present in the store, \<open>deleteTable\<close> leaves exactly the tables with
  another id, in their order and as they were (a foreign-key field of theirs that
  references the deleted table stays), and exactly the relationships whose parent and
  child are both another table; no table with the id remains. When the ids of the tables
  are pairwise different, exactly the one table is removed.
\<close>

theorem deleteTable_removes_table_and_links:
  assumes "tableById i s = Some t"
  shows "tables (deleteTable i s) = filter (\<lambda>x. t_id x \<noteq> i) (tables s) \<and>
         relationships (deleteTable i s) =
           filter (\<lambda>r. parentTableId r \<noteq> i \<and> childTableId r \<noteq> i) (relationships s) \<and>
         dialect (deleteTable i s) = dialect s \<and>
         tableById i (deleteTable i s) = None \<and>
         t \<notin> set (tables (deleteTable i s)) \<and>
         (\<forall>x. x \<in> set (tables s) \<and> t_id x \<noteq> i \<longrightarrow> x \<in> set (tables (deleteTable i s))) \<and>
         (\<forall>r. r \<in> set (relationships (deleteTable i s)) \<longleftrightarrow>
              r \<in> set (relationships s) \<and> parentTableId r \<noteq> i \<and> childTableId r \<noteq> i) \<and>
         (distinct (map t_id (tables s)) \<longrightarrow> tables (deleteTable i s) = remove1 t (tables s))"
proof -
  from assms have found: "find (\<lambda>x. t_id x = i) (tables s) = Some t"
    by (simp add: tableById_def)
  then have t: "t_id t = i" by (auto dest: find_SomeD)
  have ts: "tables (deleteTable i s) = filter (\<lambda>x. t_id x \<noteq> i) (tables s)"
    and rs: "relationships (deleteTable i s) =
      filter (\<lambda>r. parentTableId r \<noteq> i \<and> childTableId r \<noteq> i) (relationships s)"
    and dl: "dialect (deleteTable i s) = dialect s"
    using found by (simp_all add: deleteTable_def)
  have gone: "tableById i (deleteTable i s) = None"
    unfolding tableById_def ts using find_None_filter[of "\<lambda>x. t_id x = i" "tables s"] by simp
  have one: "tables (deleteTable i s) = remove1 t (tables s)" if "distinct (map t_id (tables s))"
    unfolding ts using that found by (rule filter_remove1)
  show ?thesis
    unfolding ts rs
    using t dl gone one by (auto simp: ts)
qed

theorem deleteTable_removes_table_and_links_witness:
  "tableById ''u1'' linked = Some users \<and>
   tables (deleteTable ''u1'' linked) = [ordersLinked, tags] \<and>
   relationships (deleteTable ''u1'' linked) = [mkRel ''r2'' ''t1'' ''o1'' ''ONE_TO_MANY''] \<and>
   list_ex (\<lambda>f. truthy (isForeignKey f) \<and> references f = Some ''u1'') (t_fields ordersLinked)"
  using deleteTable_removes_table_and_links[of "''u1''" linked users]
  by (simp add: tableById_def linked_def emptyState_def users_def orders_def ordersLinked_def
      tags_def usersFk_def mkRel_def DEFAULT_FIELD_def truthy_def)

subsection \<open>Relationship engine\<close>

lemma endpoints_find:
  assumes "endpoints relDraft s A B"
  shows "t_id A = d_parentTableId relDraft" "t_id B = d_childTableId relDraft"
    "find (\<lambda>t. t_id t = t_id A) (tables s) = Some A"
    "find (\<lambda>t. t_id t = t_id B) (tables s) = Some B"
proof -
  from assms have a: "find (\<lambda>t. t_id t = d_parentTableId relDraft) (tables s) = Some A"
    and b: "find (\<lambda>t. t_id t = d_childTableId relDraft) (tables s) = Some B"
    by (simp_all add: endpoints_def)
  from find_SomeD[OF a] show ida: "t_id A = d_parentTableId relDraft" by simp
  from find_SomeD[OF b] show idb: "t_id B = d_childTableId relDraft" by simp
  from a show "find (\<lambda>t. t_id t = t_id A) (tables s) = Some A" by (simp only: ida)
  from b show "find (\<lambda>t. t_id t = t_id B) (tables s) = Some B" by (simp only: idb)
qed

lemma saveRelationship_many:
  assumes "endpoints relDraft s A B" "d_type relDraft = ''MANY_TO_MANY''"
    "uniqueName rt (t_name A @ ''_'' @ t_name B @ ''_join'') (tables s) = Some joinName"
  shows "saveRelationship rt e relDraft s =
     Some (Inr (s\<lparr>tables := tables s @ [joinTable rt e joinName A B],
            relationships := relationships s @
              [newRel (id_rel e) relDraft (d_parentField relDraft) (d_childField relDraft)],
            message := ''Created join table '' @ [CHR 0x22] @ joinName @ [CHR 0x22],
            showRelModal := False\<rparr>))"
  using assms by (simp add: saveRelationship_def endpoints_def)

lemma childHas_iff: "childHas rt child n \<longleftrightarrow> (\<exists>f \<in> set (t_fields child). matchesName rt n f)"
  by (simp add: childHas_def matchesName_def list_ex_iff)

lemma parentPK_Some: "t_fields parent \<noteq> [] \<Longrightarrow> \<exists>pk. parentPK parent = Some pk"
  by (cases "t_fields parent") (auto simp: parentPK_def split: option.splits)

lemma saveRelationship_fk:
  assumes "endpoints relDraft s A B" "d_type relDraft \<noteq> ''MANY_TO_MANY''"
    "parentPK A = Some pk"
  shows "saveRelationship rt e relDraft s =
     Some (Inr (s\<lparr>tables :=
              map (\<lambda>t. if t_id t = t_id B then updatedChild rt e relDraft A pk B else t) (tables s),
            relationships := relationships s @
              [newRel (id_rel e) relDraft (f_name pk) (fkName rt relDraft A)],
            showRelModal := False, message := ''Relationship saved''\<rparr>))"
  using assms by (simp add: saveRelationship_def endpoints_def)

lemma updatedChild_id: "t_id (updatedChild rt e relDraft A pk B) = t_id B"
  by (simp add: updatedChild_def Let_def)

lemma saveRelationship_fk_child:
  assumes "endpoints relDraft s A B" "d_type relDraft \<noteq> ''MANY_TO_MANY''"
    "parentPK A = Some pk" "saveRelationship rt e relDraft s = Some (Inr s')"
  shows "tableById (t_id B) s' = Some (updatedChild rt e relDraft A pk B)"
proof -
  from assms(1) have "find (\<lambda>t. t_id t = t_id B) (tables s) = Some B"
    by (rule endpoints_find)
  then have "find (\<lambda>t. t_id t = t_id B)
      (map (\<lambda>t. if t_id t = t_id B then updatedChild rt e relDraft A pk B else t) (tables s)) =
      Some (updatedChild rt e relDraft A pk B)"
    by (rule find_map_replace) (rule updatedChild_id)
  moreover have "tables s' =
      map (\<lambda>t. if t_id t = t_id B then updatedChild rt e relDraft A pk B else t) (tables s)"
    using saveRelationship_fk[OF assms(1-3), of rt e] assms(4) by auto
  ultimately show ?thesis by (simp add: tableById_def)
qed

lemma endpoints_twoTables: "endpoints (link ty cf) twoTables users orders"
  by (simp add: endpoints_def users_def orders_def twoTables_def link_def emptyState_def)

text \<open>
  C3. Committing a \<^verbatim>\<open>MANY_TO_MANY\<close> relationship between two different tables \<open>A\<close> and \<open>B\<close>
  of the store, with a runtime under which the suffixed forms of \<^verbatim>\<open>{A.name}_{B.name}_join\<close>
  differ in lower case (as under \<^verbatim>\<open>String.prototype.toLowerCase\<close>), returns and appends
  exactly one table and exactly one relationship record. The new table has exactly three
  fields: a primary-key field that is no foreign key, and two \<^verbatim>\<open>INTEGER\<close> foreign-key fields,
  no primary keys, referencing the id of \<open>A\<close> and the id of \<open>B\<close>. Its name is what
  \<open>uniqueName\<close> returns for \<^verbatim>\<open>{A.name}_{B.name}_join\<close> over the tables of the store, so it
  collides with none of them. \<open>A\<close> and \<open>B\<close> are still found under their ids, unchanged.
\<close>

theorem manyToMany_adds_join_table:
  assumes "endpoints relDraft s A B" and "d_type relDraft = ''MANY_TO_MANY''"
    and "suffixesDiffer rt (t_name A @ ''_'' @ t_name B @ ''_join'')"
  shows "\<exists>s' jt pk fa fb r.
           saveRelationship rt e relDraft s = Some (Inr s') \<and>
           tables s' = tables s @ [jt] \<and>
           t_fields jt = [pk, fa, fb] \<and>
           truthy (isPrimary pk) \<and> \<not> truthy (isPrimary fa) \<and> \<not> truthy (isPrimary fb) \<and>
           \<not> truthy (isForeignKey pk) \<and>
           f_type fa = ''INTEGER'' \<and> truthy (isForeignKey fa) \<and> references fa = Some (t_id A) \<and>
           f_type fb = ''INTEGER'' \<and> truthy (isForeignKey fb) \<and> references fb = Some (t_id B) \<and>
           uniqueName rt (t_name A @ ''_'' @ t_name B @ ''_join'') (tables s) = Some (t_name jt) \<and>
           \<not> collides rt (tables s) (t_name jt) \<and>
           relationships s' = relationships s @ [r] \<and>
           parentTableId r = t_id A \<and> childTableId r = t_id B \<and> r_type r = ''MANY_TO_MANY'' \<and>
           tableById (t_id A) s' = Some A \<and> tableById (t_id B) s' = Some B"
proof -
  from uniqueName_returns[OF assms(3)] obtain joinName where
    joinName: "uniqueName rt (t_name A @ ''_'' @ t_name B @ ''_join'') (tables s) = Some joinName"
    by blast
  let ?jt = "joinTable rt e joinName A B"
  let ?r = "newRel (id_rel e) relDraft (d_parentField relDraft) (d_childField relDraft)"
  let ?s' = "s\<lparr>tables := tables s @ [?jt], relationships := relationships s @ [?r],
      message := ''Created join table '' @ [CHR 0x22] @ joinName @ [CHR 0x22],
      showRelModal := False\<rparr>"
  note ends = endpoints_find[OF assms(1)]
  have run: "saveRelationship rt e relDraft s = Some (Inr ?s')"
    using assms(1,2) joinName by (rule saveRelationship_many)
  have fields: "t_fields ?jt =
      [DEFAULT_FIELD (id_default e), foreignKeyField rt (now_a e) ''a'' A,
       foreignKeyField rt (now_b e) ''b'' B]"
    by (simp add: joinTable_def)
  have name: "uniqueName rt (t_name A @ ''_'' @ t_name B @ ''_join'') (tables s) = Some (t_name ?jt)"
    using joinName by (simp add: joinTable_def)
  have fresh: "\<not> collides rt (tables s) (t_name ?jt)"
    using name by (rule uniqueName_fresh)
  have rel: "parentTableId ?r = t_id A" "childTableId ?r = t_id B" "r_type ?r = ''MANY_TO_MANY''"
    using assms(2) by (simp_all add: newRel_def ends(1,2))
  have keepA: "tableById (t_id A) ?s' = Some A" and keepB: "tableById (t_id B) ?s' = Some B"
    using ends(3,4) by (simp_all add: tableById_def find_append_left)
  have pk: "truthy (isPrimary (DEFAULT_FIELD (id_default e)))"
      "\<not> truthy (isForeignKey (DEFAULT_FIELD (id_default e)))"
    by (simp_all add: DEFAULT_FIELD_def truthy_def)
  have fk: "\<not> truthy (isPrimary (foreignKeyField rt i x t))"
      "f_type (foreignKeyField rt i x t) = ''INTEGER''"
      "truthy (isForeignKey (foreignKeyField rt i x t))"
      "references (foreignKeyField rt i x t) = Some (t_id t)"
    for i x t
    by (simp_all add: foreignKeyField_def truthy_def)
  show ?thesis
    apply (rule exI[of _ ?s'])
    apply (rule exI[of _ ?jt])
    apply (rule exI[of _ "DEFAULT_FIELD (id_default e)"])
    apply (rule exI[of _ "foreignKeyField rt (now_a e) ''a'' A"])
    apply (rule exI[of _ "foreignKeyField rt (now_b e) ''b'' B"])
    apply (rule exI[of _ ?r])
    apply (intro conjI run fields name fresh rel keepA keepB pk fk)
     apply simp_all
    done
qed

theorem manyToMany_adds_join_table_witness:
  "endpoints (link ''MANY_TO_MANY'' []) twoTables users orders \<and>
   suffixesDiffer ascii (t_name users @ ''_'' @ t_name orders @ ''_join'') \<and>
   (\<exists>s' jt. saveRelationship ascii ids0 (link ''MANY_TO_MANY'' []) twoTables = Some (Inr s') \<and>
      tables s' = [users, orders, jt] \<and> t_name jt = ''Users_orders_join'' \<and>
      length (t_fields jt) = 3 \<and> length (relationships s') = 1)"
proof -
  have ty: "d_type (link ''MANY_TO_MANY'' []) = ''MANY_TO_MANY''"
    by (simp add: link_def)
  note differ = ascii_suffixesDiffer[of "t_name users @ ''_'' @ t_name orders @ ''_join''"]
  from manyToMany_adds_join_table[OF endpoints_twoTables ty differ, where e = ids0]
  obtain s' jt pk fa fb r where
    "saveRelationship ascii ids0 (link ''MANY_TO_MANY'' []) twoTables = Some (Inr s')"
    "tables s' = tables twoTables @ [jt]" "t_fields jt = [pk, fa, fb]"
    "uniqueName ascii (t_name users @ ''_'' @ t_name orders @ ''_join'') (tables twoTables) =
      Some (t_name jt)"
    "relationships s' = relationships twoTables @ [r]"
    by blast
  moreover have "uniqueName ascii (t_name users @ ''_'' @ t_name orders @ ''_join'')
      (tables twoTables) = Some ''Users_orders_join''"
    by (simp add: users_def orders_def twoTables_def emptyState_def uniqueName_def
        uniqueName_loop.simps ascii_def lowerChar_def)
  moreover have "tables twoTables = [users, orders]" "relationships twoTables = []"
    by (simp_all add: twoTables_def emptyState_def)
  ultimately show ?thesis
    using endpoints_twoTables differ by auto
qed

text \<open>
  C4. The resolved foreign-key name is \<open>fkName\<close>: the draft's \<^verbatim>\<open>childField\<close> as the runtime's
  \<^verbatim>\<open>trim\<close> returns it, if that is not empty, else the parent's name in lower case with
  \<^verbatim>\<open>_id\<close>. When the child \<open>B\<close> already has a field whose name equals the resolved name in the
  runtime's lower case (and the parent has a field, as every committed table has),
  committing a \<^verbatim>\<open>ONE_TO_ONE\<close> relationship succeeds; the child then has as many fields as
  before, with the same names in the same order; every field with that name is the old
  one with \<^verbatim>\<open>isUnique\<close> set to true, and the other fields are unchanged.
\<close>

theorem oneToOne_promotes_existing_field:
  assumes "endpoints relDraft s A B" and "d_type relDraft = ''ONE_TO_ONE''"
    and "t_fields A \<noteq> []" and "childHas rt B (fkName rt relDraft A)"
  shows "\<exists>s' B'.
           saveRelationship rt e relDraft s = Some (Inr s') \<and>
           tableById (t_id B) s' = Some B' \<and>
           length (t_fields B') = length (t_fields B) \<and>
           map f_name (t_fields B') = map f_name (t_fields B) \<and>
           list_ex (matchesName rt (fkName rt relDraft A)) (t_fields B') \<and>
           list_all (\<lambda>f. truthy (isUnique f)) (filter (matchesName rt (fkName rt relDraft A)) (t_fields B')) \<and>
           filter (matchesName rt (fkName rt relDraft A)) (t_fields B') =
             map (\<lambda>f. f\<lparr>isUnique := Some True\<rparr>) (filter (matchesName rt (fkName rt relDraft A)) (t_fields B)) \<and>
           filter (\<lambda>f. \<not> matchesName rt (fkName rt relDraft A) f) (t_fields B') =
             filter (\<lambda>f. \<not> matchesName rt (fkName rt relDraft A) f) (t_fields B)"
proof -
  let ?n = "fkName rt relDraft A"
  let ?up = "\<lambda>f. if toLowerCase rt (f_name f) = toLowerCase rt ?n then f\<lparr>isUnique := Some True\<rparr> else f"
  from assms(3) obtain pk where pk: "parentPK A = Some pk"
    using parentPK_Some by blast
  have ty: "d_type relDraft \<noteq> ''MANY_TO_MANY''" using assms(2) by simp
  let ?B' = "updatedChild rt e relDraft A pk B"
  obtain s' where run: "saveRelationship rt e relDraft s = Some (Inr s')"
    using saveRelationship_fk[OF assms(1) ty pk] by blast
  have child: "tableById (t_id B) s' = Some ?B'"
    using assms(1) ty pk run by (rule saveRelationship_fk_child)
  have fields: "t_fields ?B' = map ?up (t_fields B)"
    using assms(2,4) by (simp add: updatedChild_def Let_def)
  have names: "map f_name (map ?up xs) = map f_name xs" for xs :: "field list"
    by (induction xs) auto
  have hit: "filter (matchesName rt ?n) (map ?up xs) =
      map (\<lambda>f. f\<lparr>isUnique := Some True\<rparr>) (filter (matchesName rt ?n) xs)" for xs :: "field list"
    by (induction xs) (auto simp: matchesName_def)
  have miss: "filter (\<lambda>f. \<not> matchesName rt ?n f) (map ?up xs) = filter (\<lambda>f. \<not> matchesName rt ?n f) xs" for xs :: "field list"
    by (induction xs) (auto simp: matchesName_def)
  have "list_ex (matchesName rt ?n) xs \<Longrightarrow> list_ex (matchesName rt ?n) (map ?up xs)"
    for xs :: "field list"
    by (induction xs) (auto simp: matchesName_def)
  moreover have "list_ex (matchesName rt ?n) (t_fields B)"
    using assms(4) by (simp add: childHas_iff list_ex_iff)
  ultimately have ex: "list_ex (matchesName rt ?n) (map ?up (t_fields B))" .
  have uniq: "list_all (\<lambda>f. truthy (isUnique f)) (filter (matchesName rt ?n) (map ?up xs))" for xs :: "field list"
    by (induction xs) (auto simp: matchesName_def truthy_def)
  show ?thesis
    apply (rule exI[of _ s'])
    apply (rule exI[of _ ?B'])
    apply (simp only: fields)
    apply (intro conjI run names hit miss ex uniq)
     apply (simp add: child fields)
    apply simp
    done
qed

theorem oneToOne_promotes_existing_field_witness:
  "endpoints (link ''ONE_TO_ONE'' '' total '') twoTables users orders \<and>
   t_fields users \<noteq> [] \<and>
   childHas ascii orders (fkName ascii (link ''ONE_TO_ONE'' '' total '') users) \<and>
   map isUnique (t_fields orders) = [Some False, Some False] \<and>
   (\<exists>s' B'. saveRelationship ascii ids0 (link ''ONE_TO_ONE'' '' total '') twoTables = Some (Inr s') \<and>
      tableById ''o1'' s' = Some B' \<and>
      map f_name (t_fields B') = [''id'', ''Total''] \<and>
      map isUnique (t_fields B') = [Some False, Some True])"
proof -
  have ty: "d_type (link ''ONE_TO_ONE'' '' total '') = ''ONE_TO_ONE''"
    by (simp add: link_def)
  have fs: "t_fields users \<noteq> []"
    by (simp add: users_def)
  have n: "fkName ascii (link ''ONE_TO_ONE'' '' total '') users = ''total''"
    by (simp add: fkName_def link_def ascii_def lowerChar_def isSpace_def)
  have has: "childHas ascii orders (fkName ascii (link ''ONE_TO_ONE'' '' total '') users)"
    unfolding n by (simp add: childHas_def orders_def DEFAULT_FIELD_def ascii_def lowerChar_def isSpace_def)
  from oneToOne_promotes_existing_field[OF endpoints_twoTables ty fs has, where e = ids0]
  obtain s' B' where run: "saveRelationship ascii ids0 (link ''ONE_TO_ONE'' '' total '') twoTables = Some (Inr s')"
    and child: "tableById (t_id orders) s' = Some B'"
    and names: "map f_name (t_fields B') = map f_name (t_fields orders)"
    and hit: "filter (matchesName ascii (fkName ascii (link ''ONE_TO_ONE'' '' total '') users)) (t_fields B') =
      map (\<lambda>f. f\<lparr>isUnique := Some True\<rparr>)
        (filter (matchesName ascii (fkName ascii (link ''ONE_TO_ONE'' '' total '') users)) (t_fields orders))"
    and miss: "filter (\<lambda>f. \<not> matchesName ascii (fkName ascii (link ''ONE_TO_ONE'' '' total '') users) f) (t_fields B') =
      filter (\<lambda>f. \<not> matchesName ascii (fkName ascii (link ''ONE_TO_ONE'' '' total '') users) f) (t_fields orders)"
    by blast
  from names obtain a b where ab: "t_fields B' = [a, b]" "f_name a = ''id''" "f_name b = ''Total''"
    by (auto simp: orders_def DEFAULT_FIELD_def map_eq_Cons_conv)
  from hit miss ab have "isUnique a = Some False" "isUnique b = Some True"
    unfolding n by (simp_all add: matchesName_def orders_def DEFAULT_FIELD_def ascii_def lowerChar_def isSpace_def)
  with ab run child show ?thesis
    using endpoints_twoTables fs has by (simp add: orders_def DEFAULT_FIELD_def)
qed

text \<open>
  C5, as amended. The resolved foreign-key name is the draft's \<^verbatim>\<open>childField\<close> as the
  runtime's \<^verbatim>\<open>trim\<close> returns it (the white space at both ends removed), if that is not
  empty, else the parent's name in lower case with \<^verbatim>\<open>_id\<close>. When the child has no field of
  that name (in the runtime's lower case), committing a \<^verbatim>\<open>ONE_TO_MANY\<close> relationship appends
  exactly one field to the child: its name is the resolved name, its type is the type of
  the parent's primary-key field, or \<^verbatim>\<open>INTEGER\<close> when that type is empty, it is a foreign
  key referencing the parent's id, not null and not unique. The relationship record
  appended has the name of the parent's primary-key field as \<^verbatim>\<open>parentField\<close> and the
  resolved name as \<^verbatim>\<open>childField\<close>. The parent's primary-key field is its first field marked
  primary, or its first field when none is marked. This holds whatever \<^verbatim>\<open>trim\<close> and
  \<^verbatim>\<open>toLowerCase\<close> do.
\<close>

theorem oneToMany_adds_foreign_key:
  assumes "endpoints relDraft s A B" and "d_type relDraft = ''ONE_TO_MANY''"
    and "parentPK A = Some pk" and "\<not> childHas rt B (fkName rt relDraft A)"
  shows "\<exists>s' B' nf r.
           saveRelationship rt e relDraft s = Some (Inr s') \<and>
           tableById (t_id B) s' = Some B' \<and>
           t_fields B' = t_fields B @ [nf] \<and>
           length (t_fields B') = length (t_fields B) + 1 \<and>
           f_name nf = fkName rt relDraft A \<and>
           f_type nf = (if f_type pk \<noteq> [] then f_type pk else ''INTEGER'') \<and>
           isForeignKey nf = Some True \<and> references nf = Some (t_id A) \<and>
           isNull nf = Some False \<and> isUnique nf = Some False \<and>
           relationships s' = relationships s @ [r] \<and>
           parentField r = f_name pk \<and> childField r = fkName rt relDraft A"
proof -
  let ?n = "fkName rt relDraft A"
  have ty: "d_type relDraft \<noteq> ''MANY_TO_MANY''" using assms(2) by simp
  let ?B' = "updatedChild rt e relDraft A pk B"
  let ?nf = "newForeignKey (now_fk e) ?n pk A (d_type relDraft)"
  let ?r = "newRel (id_rel e) relDraft (f_name pk) ?n"
  note run = saveRelationship_fk[OF assms(1) ty assms(3), of rt e]
  then obtain s' where s': "saveRelationship rt e relDraft s = Some (Inr s')" by blast
  have child: "tableById (t_id B) s' = Some ?B'"
    using assms(1) ty assms(3) s' by (rule saveRelationship_fk_child)
  have fields: "t_fields ?B' = t_fields B @ [?nf]"
    using assms(4) by (simp add: updatedChild_def Let_def)
  have rels: "relationships s' = relationships s @ [?r]"
    using run s' by auto
  have nf: "f_name ?nf = ?n" "f_type ?nf = (if f_type pk \<noteq> [] then f_type pk else ''INTEGER'')"
    "isForeignKey ?nf = Some True" "references ?nf = Some (t_id A)"
    "isNull ?nf = Some False" "isUnique ?nf = Some False"
    using assms(2) by (simp_all add: newForeignKey_def)
  have r: "parentField ?r = f_name pk" "childField ?r = ?n"
    by (simp_all add: newRel_def)
  show ?thesis
    apply (rule exI[of _ s'])
    apply (rule exI[of _ ?B'])
    apply (rule exI[of _ ?nf])
    apply (rule exI[of _ ?r])
    apply (intro conjI s' child fields rels nf r)
    apply (simp add: fields)
    done
qed

theorem oneToMany_adds_foreign_key_witness:
  "endpoints (link ''ONE_TO_MANY'' []) twoTables users orders \<and>
   parentPK users = Some (DEFAULT_FIELD ''f1'') \<and>
   \<not> childHas ascii orders (fkName ascii (link ''ONE_TO_MANY'' []) users) \<and>
   (\<exists>s' B' nf r. saveRelationship ascii ids0 (link ''ONE_TO_MANY'' []) twoTables = Some (Inr s') \<and>
      tableById ''o1'' s' = Some B' \<and> t_fields B' = t_fields orders @ [nf] \<and>
      f_name nf = ''users_id'' \<and> f_type nf = ''INTEGER'' \<and>
      relationships s' = [r] \<and> parentField r = ''id'' \<and> childField r = ''users_id'')"
proof -
  have ty: "d_type (link ''ONE_TO_MANY'' []) = ''ONE_TO_MANY''"
    by (simp add: link_def)
  have pk: "parentPK users = Some (DEFAULT_FIELD ''f1'')"
    by (simp add: parentPK_def users_def DEFAULT_FIELD_def truthy_def)
  have n: "fkName ascii (link ''ONE_TO_MANY'' []) users = ''users_id''"
    by (simp add: fkName_def link_def users_def ascii_def lowerChar_def isSpace_def)
  have has: "\<not> childHas ascii orders (fkName ascii (link ''ONE_TO_MANY'' []) users)"
    unfolding n by (simp add: childHas_def orders_def DEFAULT_FIELD_def ascii_def lowerChar_def isSpace_def)
  from oneToMany_adds_foreign_key[OF endpoints_twoTables ty pk has, where e = ids0]
  obtain s' B' nf r where
    "saveRelationship ascii ids0 (link ''ONE_TO_MANY'' []) twoTables = Some (Inr s')"
    "tableById (t_id orders) s' = Some B'" "t_fields B' = t_fields orders @ [nf]"
    "f_name nf = fkName ascii (link ''ONE_TO_MANY'' []) users"
    "f_type nf = (if f_type (DEFAULT_FIELD ''f1'') \<noteq> [] then f_type (DEFAULT_FIELD ''f1'') else ''INTEGER'')"
    "relationships s' = relationships twoTables @ [r]"
    "parentField r = f_name (DEFAULT_FIELD ''f1'')"
    "childField r = fkName ascii (link ''ONE_TO_MANY'' []) users"
    by blast
  moreover have "t_id orders = ''o1''" "relationships twoTables = []"
    "f_name (DEFAULT_FIELD ''f1'') = ''id''" "f_type (DEFAULT_FIELD ''f1'') = ''INTEGER''"
    by (simp_all add: orders_def twoTables_def emptyState_def DEFAULT_FIELD_def)
  ultimately show ?thesis
    using endpoints_twoTables pk has n by auto
qed

text \<open>
  C5 as stated fails. With \<^verbatim>\<open>childField = " id "\<close> the child \<^verbatim>\<open>orders\<close> has no field named
  \<^verbatim>\<open>" id "\<close>, yet no field is added and the record stores \<^verbatim>\<open>"id"\<close>: the source trims
  the name first and then finds the field \<^verbatim>\<open>id\<close>. And a parent primary key whose type is
  empty gives the new field the type \<^verbatim>\<open>INTEGER\<close>.
\<close>

theorem oneToMany_counterexample:
  "endpoints (link ''ONE_TO_MANY'' '' id '') twoTables users orders \<and>
   \<not> childHas ascii orders (fkName_spec ascii (link ''ONE_TO_MANY'' '' id '') users) \<and>
   saveRelationship ascii ids0 (link ''ONE_TO_MANY'' '' id '') twoTables =
     Some (Inr (twoTables
       \<lparr>relationships :=
          [\<lparr>r_id = ''r1'', parentTableId = ''u1'', childTableId = ''o1'', parentField = ''id'',
            childField = ''id'', r_type = ''ONE_TO_MANY''\<rparr>],
        showRelModal := False, message := ''Relationship saved''\<rparr>)) \<and>
   endpoints (link ''ONE_TO_MANY'' []) (twoTables\<lparr>tables := [untyped, orders]\<rparr>) untyped orders \<and>
   \<not> childHas ascii orders (fkName_spec ascii (link ''ONE_TO_MANY'' []) untyped) \<and>
   (\<exists>pk. parentPK untyped = Some pk \<and> f_type pk = []) \<and>
   (\<exists>s' B'. saveRelationship ascii ids0 (link ''ONE_TO_MANY'' []) (twoTables\<lparr>tables := [untyped, orders]\<rparr>) = Some (Inr s') \<and>
      tableById ''o1'' s' = Some B' \<and>
      map f_name (t_fields B') = [''id'', ''Total'', ''users_id''] \<and>
      map f_type (t_fields B') = [''INTEGER'', ''DECIMAL'', ''INTEGER''])"
  by (simp add: saveRelationship_def endpoints_def parentPK_def fkName_def fkName_spec_def
      childHas_def updatedChild_def newForeignKey_def newRel_def truthy_def tableById_def
      users_def orders_def untyped_def ids0_def twoTables_def link_def emptyState_def
      DEFAULT_FIELD_def ascii_def lowerChar_def isSpace_def)

text \<open>
  C8. For a stored relationship of type \<^verbatim>\<open>MANY_TO_MANY\<close>, \<open>deleteRelationship\<close> keeps exactly
  the relationship records with another id. When no table has a foreign-key field that
  references the relationship's parent or child, the tables stay as they are; otherwise
  the first such table in the store is located and every table with its id is removed.
  When the ids of the relationships are pairwise different, exactly the one record is
  removed.
\<close>

theorem deleteRelationship_manyToMany:
  assumes "find (\<lambda>r. r_id r = relId) (relationships s) = Some rel"
    and "r_type rel = ''MANY_TO_MANY''"
  shows "relationships (deleteRelationship relId s) =
           filter (\<lambda>r. r_id r \<noteq> relId) (relationships s) \<and>
         rel \<notin> set (relationships (deleteRelationship relId s)) \<and>
         (\<forall>r. r \<in> set (relationships s) \<and> r_id r \<noteq> relId \<longrightarrow>
              r \<in> set (relationships (deleteRelationship relId s))) \<and>
         (distinct (map r_id (relationships s)) \<longrightarrow>
            relationships (deleteRelationship relId s) = remove1 rel (relationships s)) \<and>
         (\<not> list_ex (referencesEndpoint rel) (tables s) \<longrightarrow>
            tables (deleteRelationship relId s) = tables s) \<and>
         (list_ex (referencesEndpoint rel) (tables s) \<longrightarrow>
            (\<exists>jt. find (referencesEndpoint rel) (tables s) = Some jt \<and>
               jt \<in> set (tables s) \<and> referencesEndpoint rel jt \<and>
               tables (deleteRelationship relId s) = filter (\<lambda>t. t_id t \<noteq> t_id jt) (tables s) \<and>
               jt \<notin> set (tables (deleteRelationship relId s))))"
proof -
  let ?s' = "deleteRelationship relId s"
  have rid: "r_id rel = relId" using assms(1) by (auto dest: find_SomeD)
  have rs: "relationships ?s' = filter (\<lambda>r. r_id r \<noteq> relId) (relationships s)"
    using assms by (simp add: deleteRelationship_def)
  have none: "tables ?s' = tables s" if "\<not> list_ex (referencesEndpoint rel) (tables s)"
  proof -
    from that have "find (referencesEndpoint rel) (tables s) = None"
      by (simp add: find_None_iff list_ex_iff)
    then show ?thesis using assms by (simp add: deleteRelationship_def)
  qed
  have some: "\<exists>jt. find (referencesEndpoint rel) (tables s) = Some jt \<and>
               jt \<in> set (tables s) \<and> referencesEndpoint rel jt \<and>
               tables ?s' = filter (\<lambda>t. t_id t \<noteq> t_id jt) (tables s) \<and>
               jt \<notin> set (tables ?s')"
    if "list_ex (referencesEndpoint rel) (tables s)"
  proof -
    from that obtain jt where jt: "find (referencesEndpoint rel) (tables s) = Some jt"
      by (cases "find (referencesEndpoint rel) (tables s)") (auto simp: find_None_iff list_ex_iff)
    then have "tables ?s' = filter (\<lambda>t. t_id t \<noteq> t_id jt) (tables s)"
      using assms by (simp add: deleteRelationship_def)
    with jt find_SomeD[OF jt] show ?thesis by auto
  qed
  have one: "relationships ?s' = remove1 rel (relationships s)"
    if "distinct (map r_id (relationships s))"
    unfolding rs using that assms(1) by (rule filter_remove1)
  show ?thesis
    using rid rs none some one by auto
qed

theorem deleteRelationship_manyToMany_witness:
  "find (\<lambda>r. r_id r = ''r1'') (relationships joined) = Some (mkRel ''r1'' ''u1'' ''t1'' ''MANY_TO_MANY'') \<and>
   r_type (mkRel ''r1'' ''u1'' ''t1'' ''MANY_TO_MANY'') = ''MANY_TO_MANY'' \<and>
   list_ex (referencesEndpoint (mkRel ''r1'' ''u1'' ''t1'' ''MANY_TO_MANY'')) (tables joined) \<and>
   find (referencesEndpoint (mkRel ''r1'' ''u1'' ''t1'' ''MANY_TO_MANY'')) (tables joined) = Some usersTags \<and>
   tables (deleteRelationship ''r1'' joined) = [users, tags] \<and>
   relationships (deleteRelationship ''r1'' joined) = [mkRel ''r2'' ''t1'' ''u1'' ''ONE_TO_ONE'']"
  using deleteRelationship_manyToMany[of "''r1''" joined "mkRel ''r1'' ''u1'' ''t1'' ''MANY_TO_MANY''"]
  by (simp add: referencesEndpoint_def joined_def usersTags_def joinTable_def foreignKeyField_def
      users_def tags_def ids0_def mkRel_def emptyState_def DEFAULT_FIELD_def truthy_def)

subsection \<open>Export and import\<close>

text \<open>
  C9. Importing the exported document of a state whose dialect is not the empty string
  gives back its tables, its relationships and its dialect: the component's state after
  the import differs from the one before only in these three and in the message.
\<close>

theorem import_export_roundtrip:
  assumes "dialect s \<noteq> []"
  shows "importJSON (Some (Inr (exportJSON s))) s0 =
           s0\<lparr>tables := tables s, relationships := relationships s, dialect := dialect s,
              message := ''Project imported''\<rparr> \<and>
         tables (importJSON (Some (Inr (exportJSON s))) s0) = tables s \<and>
         relationships (importJSON (Some (Inr (exportJSON s))) s0) = relationships s \<and>
         dialect (importJSON (Some (Inr (exportJSON s))) s0) = dialect s"
  using assms by (simp add: importJSON_def exportJSON_def)

theorem import_export_roundtrip_witness:
  "dialect linked \<noteq> [] \<and>
   tables (importJSON (Some (Inr (exportJSON linked))) emptyState) = [users, ordersLinked, tags] \<and>
   relationships (importJSON (Some (Inr (exportJSON linked))) emptyState) = relationships linked \<and>
   dialect (importJSON (Some (Inr (exportJSON linked))) emptyState) = ''postgres''"
proof -
  have d: "dialect linked \<noteq> []"
    by (simp add: linked_def emptyState_def)
  from import_export_roundtrip[OF d, of emptyState] d show ?thesis
    by (simp add: linked_def emptyState_def)
qed

subsection \<open>SQL generation\<close>

lemma pushColumn_line: "pushColumn d defs f = defs @ [columnLine_spec d f]"
  by (cases "f_default f")
     (simp_all add: pushColumn_def columnParts_def columnLine_spec_def Let_def truthyS_def)

lemma foldl_pushColumn:
  "foldl (pushColumn d) acc fs = acc @ map (columnLine_spec d) fs"
  by (induction fs arbitrary: acc) (simp_all add: pushColumn_line)

lemma foldl_pushForeignKey_acc:
  "foldl (pushForeignKey d ts) acc fks = acc @ foldl (pushForeignKey d ts) [] fks"
proof (induction fks arbitrary: acc)
  case Nil
  show ?case by simp
next
  case (Cons fk fks)
  have step: "pushForeignKey d ts acc fk = acc @ pushForeignKey d ts [] fk"
    by (simp add: pushForeignKey_def split: option.splits)
  show ?case
    using Cons[of "pushForeignKey d ts acc fk"] Cons[of "pushForeignKey d ts [] fk"]
    by (simp add: step)
qed

lemma foreignKeyLines_append:
  "foreignKeyLines d ts (xs @ ys) = foreignKeyLines d ts xs @ foreignKeyLines d ts ys"
  unfolding foreignKeyLines_def
  by (simp add: foldl_pushForeignKey_acc[of d ts "foldl (pushForeignKey d ts) [] (filter fkFilter xs)"])

lemma find_None_list_ex: "find P xs = None \<longleftrightarrow> \<not> list_ex P xs"
  by (auto simp: find_None_iff list_ex_iff)

lemma foreignKeyLines_dangling:
  "dangling ts f \<Longrightarrow> foreignKeyLines d ts (f # fs) = foreignKeyLines d ts fs"
  by (simp add: foreignKeyLines_def dangling_def pushForeignKey_def find_None_list_ex[symmetric])

lemma foreignKeyLines_Cons:
  "foreignKeyLines d ts (f # fs) =
     (if fkFilter f then pushForeignKey d ts [] f else []) @ foreignKeyLines d ts fs"
  using foreignKeyLines_append[of d ts "[f]" fs] by (simp add: foreignKeyLines_def)

lemma foreignKeyLines_clauses:
  "list_all2 (\<lambda>line fk. suffix (fkClause d ts fk) line)
     (foreignKeyLines d ts fs) (filter (resolvable ts) fs)"
proof (induction fs)
  case Nil
  show ?case by (simp add: foreignKeyLines_def)
next
  case (Cons f fs)
  show ?case
  proof (cases "resolvable ts f")
    case True
    then obtain parent where parent: "find (\<lambda>tt. Some (t_id tt) = references f) ts = Some parent"
      by (cases "find (\<lambda>tt. Some (t_id tt) = references f) ts")
         (auto simp: resolvable_def find_None_list_ex)
    have "suffix (fkClause d ts f)
        (''  ,FOREIGN KEY ('' @ escapeId d (f_name f) @ '') REFERENCES '' @
         escapeId d (t_name parent) @ ''('' @ escapeId d (pkName parent) @ '')'')"
      unfolding fkClause_def parent by (auto simp: suffix_def) 
    with True parent Cons show ?thesis
      by (simp add: foreignKeyLines_Cons resolvable_def pushForeignKey_def)
  next
    case False
    then have "fkFilter f \<Longrightarrow> find (\<lambda>tt. Some (t_id tt) = references f) ts = None"
      by (simp add: resolvable_def find_None_list_ex)
    with False Cons show ?thesis
      by (simp add: foreignKeyLines_Cons pushForeignKey_def)
  qed
qed

lemma pushTable_lines:
  "pushTable d ts lines t =
     lines @
     [''CREATE TABLE '' @ escapeId d (t_name t) @ '' ('',
      join ('','' @ [CHR 0x0A]) (map (columnLine_spec d) (t_fields t) @ foreignKeyLines d ts (t_fields t)),
      '');'' @ [CHR 0x0A]]"
  unfolding pushTable_def Let_def foreignKeyLines_def fkFilter_def[abs_def, symmetric]
  by (simp add: foldl_pushColumn foldl_pushForeignKey_acc[of d ts "map (columnLine_spec d) (t_fields t)"]
      fkFilter_def[abs_def])

lemma pushTable_statement:
  "pushTable d ts [] =
     (\<lambda>t. [createLine d t,
           commaJoin (map (columnLine_spec d) (t_fields t) @ foreignKeyLines d ts (t_fields t)),
           closeLine])"
  by (rule ext) (simp add: pushTable_lines createLine_def commaJoin_def closeLine_def)

lemma foldl_pushTable:
  "foldl (pushTable d ts) lines xs = lines @ concat (map (pushTable d ts []) xs)"
proof (induction xs arbitrary: lines)
  case Nil
  show ?case by simp
next
  case (Cons t xs)
  have "pushTable d ts lines t = lines @ pushTable d ts [] t"
    by (simp add: pushTable_lines)
  then show ?case by (simp add: Cons)
qed

lemma generateSQL_lines:
  "generateSQL arg s =
     join [CHR 0x0A]
       (header (forDialectOf arg s) @
        concat (map (pushTable (forDialectOf arg s) (tables s) []) (tables s)))"
  by (simp add: generateSQL_def Let_def header_def forDialectOf_def foldl_pushTable)

text \<open>
  C7, as amended. The output is the three header lines followed, for each table in store
  order, by the \<^verbatim>\<open>CREATE TABLE\<close> line, one line of definitions and the closing line
  \<^verbatim>\<open>);\<close>, all joined by line feeds. The definitions are entries joined by a comma and a
  line feed: first one column entry per field, in field order, each as \<open>columnLine_spec\<close>
  words it; then one entry for each field that is marked as a foreign key and whose
  \<^verbatim>\<open>references\<close> is not empty and is the id of a table of the store, in field order, and for
  no other field. Each of these entries ends with the clause
  \<^verbatim>\<open>FOREIGN KEY (fk) REFERENCES parent(pk)\<close>. How such an entry begins is left open: the
  source begins it with two spaces and a comma of its own, which in the joined text
  follows the joining comma and the line feed, so the statement has two commas there.
  That doubled comma is a slip of the source and is neither required nor excluded here.
\<close>

theorem generateSQL_statements:
  "generateSQL arg s =
     join [CHR 0x0A]
       (header (forDialectOf arg s) @
        concat (map (\<lambda>t. [createLine (forDialectOf arg s) t,
                          commaJoin (map (columnLine_spec (forDialectOf arg s)) (t_fields t) @
                            foreignKeyLines (forDialectOf arg s) (tables s) (t_fields t)),
                          closeLine])
                  (tables s))) \<and>
   (\<forall>t. list_all2 (\<lambda>line fk. suffix (fkClause (forDialectOf arg s) (tables s) fk) line)
          (foreignKeyLines (forDialectOf arg s) (tables s) (t_fields t))
          (filter (resolvable (tables s)) (t_fields t)))"
  by (simp add: generateSQL_lines pushTable_statement foreignKeyLines_clauses)

text \<open>
  An example with a foreign key whose table is in the store; the last entry shows the
  comma that the source puts in front of the clause.
\<close>

theorem generateSQL_statements_witness:
  "filter (resolvable [users, ordersLinked]) (t_fields ordersLinked) = [usersFk] \<and>
   fkClause ''mysql'' [users, ordersLinked] usersFk =
     ''FOREIGN KEY ('' @ [CHR 0x60] @ ''users_id'' @ [CHR 0x60] @ '') REFERENCES '' @
     [CHR 0x60] @ ''Users'' @ [CHR 0x60] @ ''('' @ [CHR 0x60] @ ''id'' @ [CHR 0x60] @ '')'' \<and>
   (\<exists>line. foreignKeyLines ''mysql'' [users, ordersLinked] (t_fields ordersLinked) = [line] \<and>
      suffix (fkClause ''mysql'' [users, ordersLinked] usersFk) line) \<and>
   generateSQL (Some ''mysql'') (emptyState\<lparr>tables := [users, ordersLinked]\<rparr>) =
     join [CHR 0x0A]
       [''-- Generated by SQLMaker'', ''-- Dialect: mysql'', [],
        ''CREATE TABLE '' @ [CHR 0x60] @ ''Users'' @ [CHR 0x60] @ '' ('',
        ''  '' @ [CHR 0x60] @ ''id'' @ [CHR 0x60] @ '' INTEGER PRIMARY KEY'',
        '');'' @ [CHR 0x0A],
        ''CREATE TABLE '' @ [CHR 0x60] @ ''orders'' @ [CHR 0x60] @ '' ('',
        join ('','' @ [CHR 0x0A])
          [''  '' @ [CHR 0x60] @ ''id'' @ [CHR 0x60] @ '' INTEGER PRIMARY KEY'',
           ''  '' @ [CHR 0x60] @ ''Total'' @ [CHR 0x60] @ '' DECIMAL DEFAULT '' @ [CHR 0x27] @ ''0'' @ [CHR 0x27],
           ''  '' @ [CHR 0x60] @ ''users_id'' @ [CHR 0x60] @ '' INTEGER NOT NULL'',
           ''  ,FOREIGN KEY ('' @ [CHR 0x60] @ ''users_id'' @ [CHR 0x60] @ '') REFERENCES '' @
           [CHR 0x60] @ ''Users'' @ [CHR 0x60] @ ''('' @ [CHR 0x60] @ ''id'' @ [CHR 0x60] @ '')''],
        '');'' @ [CHR 0x0A]]"
proof -
  let ?s = "emptyState\<lparr>tables := [users, ordersLinked]\<rparr>"
  have res: "filter (resolvable [users, ordersLinked]) (t_fields ordersLinked) = [usersFk]"
    by (simp add: resolvable_def fkFilter_def users_def orders_def ordersLinked_def usersFk_def
        DEFAULT_FIELD_def truthy_def truthyS_def)
  have ts: "tables ?s = [users, ordersLinked]" and d: "forDialectOf (Some ''mysql'') ?s = ''mysql''"
    by (simp_all add: emptyState_def forDialectOf_def)
  note stmts = generateSQL_statements[of "Some ''mysql''" ?s, unfolded ts d]
  from stmts[THEN conjunct2, THEN spec, of ordersLinked]
  have "\<exists>line. foreignKeyLines ''mysql'' [users, ordersLinked] (t_fields ordersLinked) = [line] \<and>
      suffix (fkClause ''mysql'' [users, ordersLinked] usersFk) line"
    unfolding res by (auto simp: list_all2_Cons2)
  moreover have "fkClause ''mysql'' [users, ordersLinked] usersFk =
     ''FOREIGN KEY ('' @ [CHR 0x60] @ ''users_id'' @ [CHR 0x60] @ '') REFERENCES '' @
     [CHR 0x60] @ ''Users'' @ [CHR 0x60] @ ''('' @ [CHR 0x60] @ ''id'' @ [CHR 0x60] @ '')''"
    by (simp add: fkClause_def pkName_def escapeId_def truthy_def users_def orders_def
        ordersLinked_def usersFk_def DEFAULT_FIELD_def)
  moreover have "generateSQL (Some ''mysql'') ?s =
     join [CHR 0x0A]
       [''-- Generated by SQLMaker'', ''-- Dialect: mysql'', [],
        ''CREATE TABLE '' @ [CHR 0x60] @ ''Users'' @ [CHR 0x60] @ '' ('',
        ''  '' @ [CHR 0x60] @ ''id'' @ [CHR 0x60] @ '' INTEGER PRIMARY KEY'',
        '');'' @ [CHR 0x0A],
        ''CREATE TABLE '' @ [CHR 0x60] @ ''orders'' @ [CHR 0x60] @ '' ('',
        join ('','' @ [CHR 0x0A])
          [''  '' @ [CHR 0x60] @ ''id'' @ [CHR 0x60] @ '' INTEGER PRIMARY KEY'',
           ''  '' @ [CHR 0x60] @ ''Total'' @ [CHR 0x60] @ '' DECIMAL DEFAULT '' @ [CHR 0x27] @ ''0'' @ [CHR 0x27],
           ''  '' @ [CHR 0x60] @ ''users_id'' @ [CHR 0x60] @ '' INTEGER NOT NULL'',
           ''  ,FOREIGN KEY ('' @ [CHR 0x60] @ ''users_id'' @ [CHR 0x60] @ '') REFERENCES '' @
           [CHR 0x60] @ ''Users'' @ [CHR 0x60] @ ''('' @ [CHR 0x60] @ ''id'' @ [CHR 0x60] @ '')''],
        '');'' @ [CHR 0x0A]]"
    unfolding stmts[THEN conjunct1]
    by (simp add: header_def createLine_def commaJoin_def closeLine_def columnLine_spec_def
        foreignKeyLines_def fkFilter_def pushForeignKey_def pkName_def escapeId_def truthy_def
        truthyS_def users_def orders_def ordersLinked_def usersFk_def DEFAULT_FIELD_def)
  ultimately show ?thesis using res by blast
qed

text \<open>
  C7 as stated fails: the table \<^verbatim>\<open>orders\<close> has the foreign-key field \<^verbatim>\<open>users_id\<close>, whose
  referenced table is gone, and its statement has three column lines and no
  \<^verbatim>\<open>FOREIGN KEY\<close> line.
\<close>

theorem generateSQL_counterexample:
  "list_ex (\<lambda>f. truthy (isForeignKey f)) (t_fields ordersLinked) \<and>
   generateSQL (Some ''mysql'') (emptyState\<lparr>tables := [ordersLinked]\<rparr>) =
     join [CHR 0x0A]
       [''-- Generated by SQLMaker'', ''-- Dialect: mysql'', [],
        ''CREATE TABLE '' @ [CHR 0x60] @ ''orders'' @ [CHR 0x60] @ '' ('',
        join ('','' @ [CHR 0x0A])
          [''  '' @ [CHR 0x60] @ ''id'' @ [CHR 0x60] @ '' INTEGER PRIMARY KEY'',
           ''  '' @ [CHR 0x60] @ ''Total'' @ [CHR 0x60] @ '' DECIMAL DEFAULT '' @ [CHR 0x27] @ ''0'' @ [CHR 0x27],
           ''  '' @ [CHR 0x60] @ ''users_id'' @ [CHR 0x60] @ '' INTEGER NOT NULL''],
        '');'' @ [CHR 0x0A]]"
  by (simp add: generateSQL_def pushTable_def pushColumn_def columnParts_def pushForeignKey_def
      pkName_def escapeId_def truthy_def truthyS_def
      emptyState_def orders_def ordersLinked_def usersFk_def DEFAULT_FIELD_def)

text \<open>
  C10. Let \<open>f\<close> be a field of a table \<open>t\<close> of the store, marked as a foreign key, whose
  \<^verbatim>\<open>references\<close> is the id of no table. Then the statement of \<open>t\<close> in the output is its
  \<^verbatim>\<open>CREATE TABLE\<close> line, the comma-joined definitions and the closing line, where the
  definitions are the column lines of all fields of \<open>t\<close>, the one of \<open>f\<close> in its place,
  followed by the foreign-key lines of the fields before \<open>f\<close> and of the fields after
  \<open>f\<close>: no line comes from \<open>f\<close> but its column line.
\<close>

theorem dangling_foreign_key_no_line:
  assumes "tables s = before @ t # after" and "t_fields t = pre @ f # post"
    and "dangling (tables s) f"
  shows "generateSQL arg s =
     join [CHR 0x0A]
       (header (forDialectOf arg s) @
        concat (map (pushTable (forDialectOf arg s) (tables s) []) before) @
        [createLine (forDialectOf arg s) t,
         commaJoin
           (map (columnLine_spec (forDialectOf arg s)) pre @
            [columnLine_spec (forDialectOf arg s) f] @
            map (columnLine_spec (forDialectOf arg s)) post @
            foreignKeyLines (forDialectOf arg s) (tables s) pre @
            foreignKeyLines (forDialectOf arg s) (tables s) post),
         closeLine] @
        concat (map (pushTable (forDialectOf arg s) (tables s) []) after))"
proof -
  let ?d = "forDialectOf arg s"
  have "foreignKeyLines ?d (tables s) (t_fields t) =
      foreignKeyLines ?d (tables s) pre @ foreignKeyLines ?d (tables s) post"
    using assms(3) by (simp add: assms(2) foreignKeyLines_append foreignKeyLines_dangling)
  then have "pushTable ?d (tables s) [] t =
      [createLine ?d t,
       commaJoin (map (columnLine_spec ?d) pre @ [columnLine_spec ?d f] @
         map (columnLine_spec ?d) post @
         foreignKeyLines ?d (tables s) pre @ foreignKeyLines ?d (tables s) post),
       closeLine]"
    by (simp add: pushTable_statement assms(2))
  then show ?thesis
    by (simp add: generateSQL_lines[of arg s] assms(1))
qed

theorem dangling_foreign_key_no_line_witness:
  "tables (emptyState\<lparr>tables := [ordersLinked, tags]\<rparr>) = [] @ ordersLinked # [tags] \<and>
   t_fields ordersLinked = t_fields orders @ usersFk # [] \<and>
   dangling (tables (emptyState\<lparr>tables := [ordersLinked, tags]\<rparr>)) usersFk \<and>
   generateSQL None (emptyState\<lparr>tables := [ordersLinked, tags]\<rparr>) =
     join [CHR 0x0A]
       [''-- Generated by SQLMaker'', ''-- Dialect: postgres'', [],
        ''CREATE TABLE '' @ [CHR 0x22] @ ''orders'' @ [CHR 0x22] @ '' ('',
        join ('','' @ [CHR 0x0A])
          [''  '' @ [CHR 0x22] @ ''id'' @ [CHR 0x22] @ '' INTEGER PRIMARY KEY'',
           ''  '' @ [CHR 0x22] @ ''Total'' @ [CHR 0x22] @ '' DECIMAL DEFAULT '' @ [CHR 0x27] @ ''0'' @ [CHR 0x27],
           ''  '' @ [CHR 0x22] @ ''users_id'' @ [CHR 0x22] @ '' INTEGER NOT NULL''],
        '');'' @ [CHR 0x0A],
        ''CREATE TABLE '' @ [CHR 0x22] @ ''tags'' @ [CHR 0x22] @ '' ('',
        ''  '' @ [CHR 0x22] @ ''id'' @ [CHR 0x22] @ '' INTEGER PRIMARY KEY'',
        '');'' @ [CHR 0x0A]]"
proof -
  let ?s = "emptyState\<lparr>tables := [ordersLinked, tags]\<rparr>"
  have a: "tables ?s = [] @ ordersLinked # [tags]"
    by (simp add: emptyState_def)
  have b: "t_fields ordersLinked = t_fields orders @ usersFk # []"
    by (simp add: ordersLinked_def)
  have c: "dangling (tables ?s) usersFk"
    by (simp add: dangling_def truthy_def emptyState_def orders_def ordersLinked_def usersFk_def
        tags_def DEFAULT_FIELD_def)
  show ?thesis
    using a b c dangling_foreign_key_no_line[OF a b c, of None]
    by (simp add: header_def forDialectOf_def createLine_def commaJoin_def closeLine_def
        columnLine_spec_def foreignKeyLines_def fkFilter_def
        generateSQL_def pushTable_def pushColumn_def columnParts_def pushForeignKey_def
        pkName_def escapeId_def truthy_def truthyS_def
        emptyState_def orders_def ordersLinked_def usersFk_def tags_def DEFAULT_FIELD_def)
qed

end
